theory Spec2Isabelle
  imports Main "HOL-Library.AList" "HOL-Library.Char_ord" "HOL-Library.List_Lexorder"
    "HOL-Library.Product_Lexorder"
begin

section \<open>Python values and library functions used by the cog\<close>

text \<open>
  The exceptions that can travel through \<^verbatim>\<open>servermanage.py\<close>. The three
  \<^verbatim>\<open>Invalid...Error\<close> classes are the cog's own; the others are raised by the Python
  library calls the cog makes.
\<close>

datatype error =
    ValueError
  | OverflowError
  | KeyError
  | FileNotFoundError
  | InvalidAttachmentsError
  | InvalidFileError
  | InvalidImageError

text \<open>
  A dictionary with string keys, in insertion order: \<^verbatim>\<open>d[k] = v\<close> is
  \<^const>\<open>AList.update\<close> (an existing key keeps its place, a new one goes last),
  \<^verbatim>\<open>k in d\<close> is membership in the key list. A Python dictionary never holds a key
  twice; \<open>wf_dict\<close> says so.
\<close>

type_synonym 'v pydict = "(string \<times> 'v) list"

definition wf_dict :: "'v pydict \<Rightarrow> bool" where
  "wf_dict d = distinct (map fst d)"

definition has_key :: "string \<Rightarrow> 'v pydict \<Rightarrow> bool" where
  "has_key k d = (k \<in> set (map fst d))"

text \<open>\<^verbatim>\<open>d[k]\<close>: raises KeyError when the key is missing.\<close>

definition getitem :: "'v pydict \<Rightarrow> string \<Rightarrow> error + 'v" where
  "getitem d k = (case map_of d k of None \<Rightarrow> Inl KeyError | Some v \<Rightarrow> Inr v)"

text \<open>\<^verbatim>\<open>del d[k]\<close>: raises KeyError when the key is missing.\<close>

definition delitem :: "string \<Rightarrow> 'v pydict \<Rightarrow> error + 'v pydict" where
  "delitem k d = (if has_key k d then Inr (AList.delete k d) else Inl KeyError)"

subsection \<open>\<^verbatim>\<open>datetime\<close>\<close>

record datetime =
  year :: int
  month :: int
  day :: int

definition is_leap :: "int \<Rightarrow> bool" where
  "is_leap y = (if y mod 100 = 0 then y mod 400 = 0 else y mod 4 = 0)"

definition days_in_month :: "int \<Rightarrow> int \<Rightarrow> int" where
  "days_in_month y m =
     (if m = 2 then (if is_leap y then 29 else 28)
      else if m = 4 \<or> m = 6 \<or> m = 9 \<or> m = 11 then 30
      else 31)"

text \<open>
  CPython reads the arguments of \<^verbatim>\<open>datetime(year, month, day)\<close> as C \<^verbatim>\<open>int\<close>s
  before it checks their ranges: an argument outside \<open>-2^31 .. 2^31 - 1\<close> raises
  OverflowError, an argument outside its calendar range raises ValueError.
\<close>

definition c_int :: "int \<Rightarrow> bool" where
  "c_int n = (- 2147483648 \<le> n \<and> n \<le> 2147483647)"

definition datetime_new :: "int \<Rightarrow> int \<Rightarrow> int \<Rightarrow> error + datetime" where
  "datetime_new y m d =
     (if \<not> (c_int y \<and> c_int m \<and> c_int d) then Inl OverflowError
      else if y < 1 \<or> 9999 < y then Inl ValueError
      else if m < 1 \<or> 12 < m then Inl ValueError
      else if d < 1 \<or> days_in_month y m < d then Inl ValueError
      else Inr \<lparr>year = y, month = m, day = d\<rparr>)"

text \<open>A decimal digit as a character, and a number below 100 in two digits.\<close>

definition digit_char :: "nat \<Rightarrow> char" where
  "digit_char n = ''0123456789'' ! n"

definition pad2 :: "int \<Rightarrow> string" where
  "pad2 n = [digit_char (nat n div 10), digit_char (nat n mod 10)]"

definition month_names :: "string list" where
  "month_names = [''January'', ''February'', ''March'', ''April'', ''May'', ''June'',
     ''July'', ''August'', ''September'', ''October'', ''November'', ''December'']"

text \<open>\<^verbatim>\<open>strftime("%m-%d")\<close> and \<^verbatim>\<open>strftime("%B %d")\<close> (English month names).\<close>

definition strftime_md :: "datetime \<Rightarrow> string" where
  "strftime_md t = pad2 (month t) @ ''-'' @ pad2 (day t)"

definition strftime_Bd :: "datetime \<Rightarrow> string" where
  "strftime_Bd t = month_names ! nat (month t - 1) @ '' '' @ pad2 (day t)"

definition is_digit :: "char \<Rightarrow> bool" where
  "is_digit c = (c \<in> set ''0123456789'')"

definition digit_val :: "char \<Rightarrow> int" where
  "digit_val c = int (length (takeWhile (\<lambda>x. x \<noteq> c) ''0123456789''))"

definition digits_val :: "string \<Rightarrow> int" where
  "digits_val s = foldl (\<lambda>acc c. 10 * acc + digit_val c) 0 s"

text \<open>
  \<^verbatim>\<open>date.fromisoformat\<close> on the format \<^verbatim>\<open>YYYY-MM-DD\<close>: any other string, and any
  string that is not a date, raises ValueError. (From Python 3.11 on the function reads
  further ISO 8601 forms; the cog itself only stores keys of the form \<^verbatim>\<open>MM-DD\<close>.)
\<close>

definition fromisoformat :: "string \<Rightarrow> error + datetime" where
  "fromisoformat s =
     (if length s = 10 \<and> s ! 4 = CHR ''-'' \<and> s ! 7 = CHR ''-''
         \<and> list_all is_digit (take 4 s) \<and> list_all is_digit (take 2 (drop 5 s))
         \<and> list_all is_digit (drop 8 s)
      then (case datetime_new (digits_val (take 4 s)) (digits_val (take 2 (drop 5 s)))
                   (digits_val (drop 8 s)) of
              Inl e \<Rightarrow> Inl ValueError
            | Inr t \<Rightarrow> Inr t)
      else Inl ValueError)"

subsection \<open>Strings and paths\<close>

text \<open>\<^verbatim>\<open>str.lower\<close> on ASCII text: the letters A to Z move to a to z.\<close>

definition lower_char :: "char \<Rightarrow> char" where
  "lower_char c =
     (case map_of (zip ''ABCDEFGHIJKLMNOPQRSTUVWXYZ'' ''abcdefghijklmnopqrstuvwxyz'') c of
        Some l \<Rightarrow> l
      | None \<Rightarrow> c)"

definition str_lower :: "string \<Rightarrow> string" where
  "str_lower s = map lower_char s"

text \<open>\<^verbatim>\<open>str(n)\<close> for a non-negative integer.\<close>

fun str_nat :: "nat \<Rightarrow> string" where
  "str_nat n =
     (if n < 10 then [digit_char n] else str_nat (n div 10) @ [digit_char (n mod 10)])"

declare str_nat.simps [simp del]

text \<open>\<^verbatim>\<open>p.rfind(c)\<close>: the last index of \<open>c\<close>, or \<open>-1\<close>.\<close>

fun rfind_aux :: "char \<Rightarrow> string \<Rightarrow> nat \<Rightarrow> int \<Rightarrow> int" where
  "rfind_aux c [] i r = r"
| "rfind_aux c (x # xs) i r = rfind_aux c xs (Suc i) (if x = c then int i else r)"

definition rfind :: "char \<Rightarrow> string \<Rightarrow> int" where
  "rfind c p = rfind_aux c p 0 (- 1)"

text \<open>
  \<^verbatim>\<open>os.path.splitext\<close> (POSIX): the extension starts at the last dot of the last path
  component, unless only dots come before it in that component.
\<close>

function splitext_loop :: "string \<Rightarrow> nat \<Rightarrow> nat \<Rightarrow> (string \<times> string) option" where
  "splitext_loop p filenameIndex dotIndex =
     (if filenameIndex < dotIndex
      then (if p ! filenameIndex \<noteq> CHR ''.''
            then Some (take dotIndex p, drop dotIndex p)
            else splitext_loop p (filenameIndex + 1) dotIndex)
      else None)"
  by pat_completeness auto
termination
  by (relation "measure (\<lambda>(p, filenameIndex, dotIndex). dotIndex - filenameIndex)") auto

declare splitext_loop.simps [simp del]

text \<open>\<^verbatim>\<open>sep.join(xs)\<close>.\<close>

fun join :: "string \<Rightarrow> string list \<Rightarrow> string" where
  "join sep [] = []"
| "join sep [x] = x"
| "join sep (x # y # ys) = x @ sep @ join sep (y # ys)"

definition splitext :: "string \<Rightarrow> string \<times> string" where
  "splitext p =
     (let sepIndex = rfind CHR ''/'' p; dotIndex = rfind CHR ''.'' p
      in if dotIndex > sepIndex
         then (case splitext_loop p (nat (sepIndex + 1)) (nat dotIndex) of
                 Some r \<Rightarrow> r
               | None \<Rightarrow> (p, []))
         else (p, []))"

section \<open>The cog\<close>

text \<open>
  \<^verbatim>\<open>validDate\<close>: builds \<^verbatim>\<open>datetime(2020, month, day)\<close>; a ValueError gives False,
  no exception gives True, and any other exception leaves the function.
\<close>

definition validDate :: "int \<Rightarrow> int \<Rightarrow> error + bool" where
  "validDate m d =
     (case datetime_new 2020 m d of
        Inl ValueError \<Rightarrow> Inr False
      | Inl e \<Rightarrow> Inl e
      | Inr _ \<Rightarrow> Inr True)"

subsection \<open>State\<close>

text \<open>
  The configuration of one guild, \<^verbatim>\<open>BASE_GUILD\<close>: two registries from an image name
  to its image dictionary, and two schedule tables from a \<^verbatim>\<open>MM-DD\<close> key to an image
  name. An image dictionary has the single key \<^verbatim>\<open>"filename"\<close> and is modelled by its
  value.
\<close>

record guild_conf =
  icons :: "string pydict"
  iconsDates :: "string pydict"
  banners :: "string pydict"
  bannersDates :: "string pydict"

definition BASE_GUILD :: guild_conf where
  "BASE_GUILD = \<lparr>icons = [], iconsDates = [], banners = [], bannersDates = []\<rparr>"

datatype level = DEBUG | INFO | ERROR

text \<open>
  What a command shows the user: a text sent with \<^verbatim>\<open>ctx.send\<close>, or the menu of
  \<^verbatim>\<open>imageList\<close> (its title and its description before it is cut into pages).
\<close>

datatype sent_item = Text string | Menu string string

text \<open>
  A guild of the platform. \<open>edit_forbidden\<close> says whether the platform answers
  \<^verbatim>\<open>guild.edit\<close> with \<^verbatim>\<open>discord.errors.Forbidden\<close>.
\<close>

record guild =
  gid :: nat
  gname :: string
  edit_forbidden :: bool

text \<open>An attachment; \<open>height\<close> and \<open>width\<close> are \<^verbatim>\<open>None\<close> when it is not an image.\<close>

record attachment =
  filename :: string
  height :: "nat option"
  width :: "nat option"
  content :: "nat list"

record ctx =
  ctx_guild :: guild
  attachments :: "attachment list"

text \<open>
  Everything the cog reads and writes: its data folder, the per-guild configuration, the
  files on disk (path to bytes), what was sent to the user, the calls of the logger
  (level and format string), the edits the platform accepted (guild id, field, bytes), and
  the time of the last daily check.
\<close>

record world =
  dataFolder :: string
  config :: "nat \<Rightarrow> guild_conf"
  files :: "string \<rightharpoonup> nat list"
  sent :: "sent_item list"
  logged :: "(level \<times> string) list"
  edits :: "(nat \<times> string \<times> nat list) list"
  lastChecked :: datetime

text \<open>How a coroutine ends: it returns, or an exception leaves it.\<close>

datatype outcome = Done | Raised error

definition send :: "string \<Rightarrow> world \<Rightarrow> world" where
  "send m w = w\<lparr>sent := sent w @ [Text m]\<rparr>"

definition log :: "level \<Rightarrow> string \<Rightarrow> world \<Rightarrow> world" where
  "log l m w = w\<lparr>logged := logged w @ [(l, m)]\<rparr>"

text \<open>\<^verbatim>\<open>getattr(self.config.guild(g), imageType)\<close> and its \<^verbatim>\<open>Dates\<close> sibling.\<close>

definition get_images :: "string \<Rightarrow> guild_conf \<Rightarrow> string pydict" where
  "get_images imageType c = (if imageType = ''icons'' then icons c else banners c)"

definition get_dates :: "string \<Rightarrow> guild_conf \<Rightarrow> string pydict" where
  "get_dates imageType c = (if imageType = ''icons'' then iconsDates c else bannersDates c)"

definition set_images :: "string \<Rightarrow> string pydict \<Rightarrow> guild_conf \<Rightarrow> guild_conf" where
  "set_images imageType d c =
     (if imageType = ''icons'' then c\<lparr>icons := d\<rparr> else c\<lparr>banners := d\<rparr>)"

definition set_dates :: "string \<Rightarrow> string pydict \<Rightarrow> guild_conf \<Rightarrow> guild_conf" where
  "set_dates imageType d c =
     (if imageType = ''icons'' then c\<lparr>iconsDates := d\<rparr> else c\<lparr>bannersDates := d\<rparr>)"

definition put_images :: "guild \<Rightarrow> string \<Rightarrow> string pydict \<Rightarrow> world \<Rightarrow> world" where
  "put_images g imageType d w =
     w\<lparr>config := (config w)(gid g := set_images imageType d (config w (gid g)))\<rparr>"

definition put_dates :: "guild \<Rightarrow> string \<Rightarrow> string pydict \<Rightarrow> world \<Rightarrow> world" where
  "put_dates g imageType d w =
     w\<lparr>config := (config w)(gid g := set_dates imageType d (config w (gid g)))\<rparr>"

subsection \<open>Helpers of the cog\<close>

text \<open>Python truth value of a dimension: \<^verbatim>\<open>None\<close> and 0 are false.\<close>

definition falsy :: "nat option \<Rightarrow> bool" where
  "falsy x = (x = None \<or> x = Some 0)"

definition validateImageAttachment :: "attachment list \<Rightarrow> error + unit" where
  "validateImageAttachment atts =
     (if length atts \<noteq> 1 then Inl InvalidAttachmentsError
      else let image = hd atts
           in if falsy (height image) \<and> falsy (width image) then Inl InvalidFileError
              else if str_lower (snd (splitext (filename image))) \<notin> set [''.png'', ''.gif'']
                   then Inl InvalidImageError
                   else Inr ())"

definition getSingularImageType :: "string \<Rightarrow> error + string" where
  "getSingularImageType imageType =
     (if imageType = ''icons'' then Inr ''icon''
      else if imageType = ''banners'' then Inr ''banner''
      else Inl ValueError)"

text \<open>\<^verbatim>\<open>getFullFilepath\<close>; the directory that \<^verbatim>\<open>mkdir\<close> creates is not modelled.\<close>

definition getFullFilepath :: "world \<Rightarrow> guild \<Rightarrow> string \<Rightarrow> string \<Rightarrow> error + string" where
  "getFullFilepath w g fname imageType =
     (if imageType \<notin> set [''icons'', ''banners''] then Inl ValueError
      else Inr (dataFolder w @ ''/'' @ str_nat (gid g) @ ''/'' @ imageType @ ''/'' @ fname))"

subsection \<open>Commands\<close>

text \<open>
  The confirmation dialogue of \<^verbatim>\<open>imageAdd\<close> and \<^verbatim>\<open>imageRemove\<close>:
  \<^verbatim>\<open>bot.wait_for\<close> gives the next message of the same author in the same channel
  (\<open>Some\<close> of its text), or times out after 30 seconds (\<open>None\<close>). The commands take
  that reply as the argument \<open>reply\<close>.
\<close>

text \<open>
  The last part of \<^verbatim>\<open>imageAdd\<close> (``Save the image''): the file is written under
  the name and the lower-case extension, then the registry entry is stored.
\<close>

definition imageAdd_save :: "ctx \<Rightarrow> string \<Rightarrow> string \<Rightarrow> string \<Rightarrow> world \<Rightarrow> outcome \<times> world" where
  "imageAdd_save c name imageType imageSingular w =
     (let image = hd (attachments c);
          extension = str_lower (snd (splitext (filename image)));
          imageDict = name @ extension
      in case getFullFilepath w (ctx_guild c) imageDict imageType of
           Inl e \<Rightarrow> (Raised e, w)
         | Inr filepath \<Rightarrow>
             (let w1 = w\<lparr>files := (files w)(filepath \<mapsto> content image)\<rparr>;
                  images = get_images imageType (config w1 (gid (ctx_guild c)));
                  w2 = put_images (ctx_guild c) imageType (AList.update name imageDict images) w1;
                  w3 = send (''Saved the '' @ imageSingular @ '' as '' @ name @ ''!'') w2
              in (Done, log INFO (''User %s#%s (%s) added a(n) %s '' @ [CHR 0x27] @ ''%s%s'' @ [CHR 0x27]) w3)))"

definition imageAdd :: "ctx \<Rightarrow> string \<Rightarrow> string \<Rightarrow> string option \<Rightarrow> world \<Rightarrow> outcome \<times> world" where
  "imageAdd c name imageType reply w =
     (case getSingularImageType imageType of
        Inl e \<Rightarrow> (Raised e, w)
      | Inr imageSingular \<Rightarrow>
          (case validateImageAttachment (attachments c) of
             Inl InvalidAttachmentsError \<Rightarrow> (Done, send ''Please attach one file!'' w)
           | Inl InvalidFileError \<Rightarrow>
               (Done, send ''The file is not an image, please upload an image!'' w)
           | Inl InvalidImageError \<Rightarrow> (Done, send ''Please upload a PNG or GIF image!'' w)
           | Inl e \<Rightarrow> (Raised e, w)
           | Inr _ \<Rightarrow>
               (let images = get_images imageType (config w (gid (ctx_guild c)))
                in if has_key name images
                   then (let w1 = send ('':warning: This '' @ imageSingular
                                   @ '' already exists. Would you like to overwrite ''
                                   @ ''it? Please type `yes` to overwrite.'') w
                         in case reply of
                              None \<Rightarrow>
                                (Done, send (''You took too long, not overwriting the existing ''
                                             @ imageSingular @ ''.'') w1)
                            | Some response \<Rightarrow>
                                if str_lower response \<noteq> ''yes''
                                then (Done, send (''Not overwriting the '' @ imageSingular @ ''.'') w1)
                                else imageAdd_save c name imageType imageSingular w1)
                   else imageAdd_save c name imageType imageSingular w)))"

text \<open>
  The cascade of \<^verbatim>\<open>imageRemove\<close>: the dates whose image is \<open>name\<close> are
  collected first, then deleted one by one.
\<close>

definition datesToRemove :: "string \<Rightarrow> string pydict \<Rightarrow> string list" where
  "datesToRemove name dates = map fst (filter (\<lambda>(date, imageName). name = imageName) dates)"

fun del_dates :: "string list \<Rightarrow> string pydict \<Rightarrow> error + string pydict" where
  "del_dates [] dates = Inr dates"
| "del_dates (date # rest) dates =
     (case delitem date dates of Inl e \<Rightarrow> Inl e | Inr dates' \<Rightarrow> del_dates rest dates')"

definition imageRemove :: "ctx \<Rightarrow> string \<Rightarrow> string \<Rightarrow> string option \<Rightarrow> world \<Rightarrow> outcome \<times> world" where
  "imageRemove c name imageType reply w =
     (case getSingularImageType imageType of
        Inl e \<Rightarrow> (Raised e, w)
      | Inr imageSingular \<Rightarrow>
          (let g = ctx_guild c; images = get_images imageType (config w (gid g))
           in if \<not> has_key name images
              then (Done, send (''This '' @ imageSingular @ '' doesn'' @ [CHR 0x27] @ ''t exist!'') w)
              else
               (let w1 = send ''Are you sure you want to delete? Please type `yes` to confirm.'' w
                in case reply of
                     None \<Rightarrow>
                       (Done, send (''You took too long, not deleting the '' @ imageSingular @ ''.'') w1)
                   | Some response \<Rightarrow>
                       if str_lower response \<noteq> ''yes''
                       then (Done, send (''Not deleting the '' @ imageSingular @ ''.'') w1)
                       else
                        (case getitem images name of
                           Inl e \<Rightarrow> (Raised e, w1)
                         | Inr imageDict \<Rightarrow>
                        (case getFullFilepath w1 g imageDict imageType of
                           Inl e \<Rightarrow> (Raised e, w1)
                         | Inr filepath \<Rightarrow>
                        (let w2 = (case files w1 filepath of
                                     Some _ \<Rightarrow> w1\<lparr>files := (files w1)(filepath := None)\<rparr>
                                   | None \<Rightarrow> log ERROR ''File does not exist %s'' w1)
                         in case delitem name (get_images imageType (config w2 (gid g))) of
                              Inl e \<Rightarrow> (Raised e, w2)
                            | Inr images' \<Rightarrow>
                        (let w3 = put_images g imageType images' w2;
                             dates = get_dates imageType (config w3 (gid g));
                             toRemove = datesToRemove name dates;
                             w4 = foldl (\<lambda>v _. log DEBUG
                                    ''The date %s has this %s, deleting from dates dict'' v) w3 toRemove
                         in case del_dates toRemove dates of
                              Inl e \<Rightarrow> (Raised e, w4)
                            | Inr dates' \<Rightarrow>
                        (let w5 = put_dates g imageType dates' w4;
                             w6 = send (''Deleted the '' @ imageSingular @ '' named '' @ name @ ''!'') w5
                         in (Done, log INFO (''User %s#%s (%s) deleted a(n) %s '' @ [CHR 0x27] @ ''%s'' @ [CHR 0x27]) w6)))))))))"

text \<open>
  \<^verbatim>\<open>imageList\<close>: one line per schedule entry, in the order of
  \<^verbatim>\<open>sorted(imageDates.items())\<close>, then the images that no entry names. The
  iteration order of the Python set \<^verbatim>\<open>notAssigned\<close> is not fixed; the model lists it
  in registry order.
\<close>

fun imageList_lines :: "(string \<times> string) list \<Rightarrow> error + string list" where
  "imageList_lines [] = Inr []"
| "imageList_lines ((changeDate, name) # rest) =
     (case fromisoformat (''2020-'' @ changeDate) of
        Inl e \<Rightarrow> Inl e
      | Inr theDate \<Rightarrow>
          (case imageList_lines rest of
             Inl e \<Rightarrow> Inl e
           | Inr ls \<Rightarrow> Inr ((strftime_Bd theDate @ '': '' @ name @ [CHR 0x0A]) # ls)))"

definition imageList :: "ctx \<Rightarrow> string \<Rightarrow> world \<Rightarrow> outcome \<times> world" where
  "imageList c imageType w =
     (case getSingularImageType imageType of
        Inl e \<Rightarrow> (Raised e, w)
      | Inr imageSingular \<Rightarrow>
          (let g = ctx_guild c; allImages = get_images imageType (config w (gid g))
           in if allImages = []
              then (Done, send (''There are no '' @ imageType @ '', please add some first!'') w)
              else
               (let imageDates = sort (get_dates imageType (config w (gid g)))
                in case imageList_lines imageDates of
                     Inl e \<Rightarrow> (Raised e, w)
                   | Inr ls \<Rightarrow>
                       (let notAssigned = filter (\<lambda>n. n \<notin> set (map snd imageDates)) (map fst allImages);
                            msg = concat ls @ (if notAssigned \<noteq> []
                                               then ''Unassigned: '' @ join '', '' notAssigned else [])
                        in (Done, w\<lparr>sent := sent w @
                              [Menu (''Server '' @ imageSingular @ '' changes for '' @ gname g) msg]\<rparr>)))))"

definition imageDateSet :: "ctx \<Rightarrow> int \<Rightarrow> int \<Rightarrow> string \<Rightarrow> string \<Rightarrow> world \<Rightarrow> outcome \<times> world" where
  "imageDateSet c m d name imageType w =
     (case getSingularImageType imageType of
        Inl e \<Rightarrow> (Raised e, w)
      | Inr imageSingular \<Rightarrow>
          (case validDate m d of
             Inl e \<Rightarrow> (Raised e, w)
           | Inr False \<Rightarrow> (Done, send ''Please enter a valid date!'' w)
           | Inr True \<Rightarrow>
               (let g = ctx_guild c
                in if \<not> has_key name (get_images imageType (config w (gid g)))
                   then (Done, send (''This '' @ imageSingular @ '' doesn'' @ [CHR 0x27] @ ''t exist!'') w)
                   else
                    (case datetime_new 2020 m d of
                       Inl e \<Rightarrow> (Raised e, w)
                     | Inr theDate \<Rightarrow>
                         (let imageDates = get_dates imageType (config w (gid g));
                              storageDate = strftime_md theDate;
                              humanDate = strftime_Bd theDate;
                              w1 = put_dates g imageType (AList.update storageDate name imageDates) w
                          in (Done, send (''On '' @ humanDate @ '', the server '' @ imageSingular
                                          @ '' will change to '' @ name) w1))))))"

definition imageDateReset :: "ctx \<Rightarrow> int \<Rightarrow> int \<Rightarrow> string \<Rightarrow> world \<Rightarrow> outcome \<times> world" where
  "imageDateReset c m d imageType w =
     (case getSingularImageType imageType of
        Inl e \<Rightarrow> (Raised e, w)
      | Inr imageSingular \<Rightarrow>
          (case validDate m d of
             Inl e \<Rightarrow> (Raised e, w)
           | Inr False \<Rightarrow> (Done, send ''Please enter a valid date!'' w)
           | Inr True \<Rightarrow>
               (case datetime_new 2020 m d of
                  Inl e \<Rightarrow> (Raised e, w)
                | Inr theDate \<Rightarrow>
                    (let g = ctx_guild c;
                         imageDates = get_dates imageType (config w (gid g));
                         storageDate = strftime_md theDate;
                         humanDate = strftime_Bd theDate
                     in if has_key storageDate imageDates
                        then (case delitem storageDate imageDates of
                                Inl e \<Rightarrow> (Raised e, w)
                              | Inr imageDates' \<Rightarrow>
                                  (Done, send (''Removed '' @ humanDate @ '' from '' @ imageSingular
                                               @ '' changes.'') (put_dates g imageType imageDates' w)))
                        else (Done, send (''There are no '' @ imageSingular
                                          @ '' changes on this date!'') w)))))"

text \<open>
  The schedule keys that \<^verbatim>\<open>imageList\<close> can print: every key, put after
  \<^verbatim>\<open>2020-\<close>, is an ISO date. \<^verbatim>\<open>imageDateSet\<close> stores no other key.
\<close>

definition date_keys_ok :: "string pydict \<Rightarrow> bool" where
  "date_keys_ok dates =
     list_all (\<lambda>(changeDate, name). case fromisoformat (''2020-'' @ changeDate) of
                                       Inl _ \<Rightarrow> False | Inr _ \<Rightarrow> True) dates"

subsection \<open>The daily loop\<close>

text \<open>
  \<^verbatim>\<open>checkGuildIcons\<close> and \<^verbatim>\<open>checkGuildBanners\<close>, with the reading \<open>now\<close> of
  \<^verbatim>\<open>datetime.now()\<close>. Only \<^verbatim>\<open>discord.errors.Forbidden\<close> is caught; a missing
  registry entry (KeyError) and a missing file (FileNotFoundError from \<^verbatim>\<open>open\<close>)
  leave the function.
\<close>

definition checkGuildIcons :: "guild \<Rightarrow> datetime \<Rightarrow> world \<Rightarrow> outcome \<times> world" where
  "checkGuildIcons g now w =
     (let w0 = log DEBUG ''Checking guild icon for %s (%s)'' w;
          today = strftime_md now;
          iconDates = iconsDates (config w0 (gid g))
      in if has_key today iconDates
         then (case getitem iconDates today of
                 Inl e \<Rightarrow> (Raised e, w0)
               | Inr iconName \<Rightarrow>
              (case getitem (icons (config w0 (gid g))) iconName of
                 Inl e \<Rightarrow> (Raised e, w0)
               | Inr icon \<Rightarrow>
              (case getFullFilepath w0 g icon ''icons'' of
                 Inl e \<Rightarrow> (Raised e, w0)
               | Inr filepath \<Rightarrow>
              (case files w0 filepath of
                 None \<Rightarrow> (Raised FileNotFoundError, w0)
               | Some bytes \<Rightarrow>
                   if edit_forbidden g
                   then (Done, log ERROR
                     ''Could not change icon, ensure the bot has Manage Server permissions'' w0)
                   else (Done, log INFO ''Changed the server icon for %s (%s) to %s''
                           (w0\<lparr>edits := edits w0 @ [(gid g, ''icon'', bytes)]\<rparr>))))))
         else (Done, w0))"

definition checkGuildBanners :: "guild \<Rightarrow> datetime \<Rightarrow> world \<Rightarrow> outcome \<times> world" where
  "checkGuildBanners g now w =
     (let w0 = log DEBUG ''Checking guild banner for %s (%s)'' w;
          today = strftime_md now;
          bannerDates = bannersDates (config w0 (gid g))
      in if has_key today bannerDates
         then (case getitem bannerDates today of
                 Inl e \<Rightarrow> (Raised e, w0)
               | Inr bannerName \<Rightarrow>
              (case getitem (banners (config w0 (gid g))) bannerName of
                 Inl e \<Rightarrow> (Raised e, w0)
               | Inr banner \<Rightarrow>
              (case getFullFilepath w0 g banner ''banners'' of
                 Inl e \<Rightarrow> (Raised e, w0)
               | Inr filepath \<Rightarrow>
              (case files w0 filepath of
                 None \<Rightarrow> (Raised FileNotFoundError, w0)
               | Some bytes \<Rightarrow>
                   if edit_forbidden g
                   then (Done, log ERROR
                     ''Could not change banner, ensure the bot has Manage Server permissions'' w0)
                   else (Done, log INFO ''Changed the server banner for %s (%s) to %s''
                           (w0\<lparr>edits := edits w0 @ [(gid g, ''banner'', bytes)]\<rparr>))))))
         else (Done, w0))"

text \<open>The \<^verbatim>\<open>for guild in self.bot.guilds\<close> loop: an exception ends it.\<close>

fun imageLoop_guilds :: "guild list \<Rightarrow> datetime \<Rightarrow> world \<Rightarrow> outcome \<times> world" where
  "imageLoop_guilds [] now w = (Done, w)"
| "imageLoop_guilds (g # gs) now w =
     (case checkGuildIcons g now w of
        (Raised e, w1) \<Rightarrow> (Raised e, w1)
      | (Done, w1) \<Rightarrow>
          (case checkGuildBanners g now w1 of
             (Raised e, w2) \<Rightarrow> (Raised e, w2)
           | (Done, w2) \<Rightarrow> imageLoop_guilds gs now w2))"

text \<open>
  One pass through the body of \<^verbatim>\<open>while True\<close> in \<^verbatim>\<open>imageLoop\<close>; \<open>now\<close> is
  the clock reading of that pass.
\<close>

definition check_msg :: string where
  "check_msg = ''Checking to see if we need to change server images''"

definition imageLoop_body :: "guild list \<Rightarrow> datetime \<Rightarrow> world \<Rightarrow> outcome \<times> world" where
  "imageLoop_body guilds now w =
     (if day (lastChecked w) \<noteq> day now
      then imageLoop_guilds guilds now ((log INFO check_msg w)\<lparr>lastChecked := now\<rparr>)
      else (Done, w))"

text \<open>
  \<^verbatim>\<open>imageLoop\<close> over a finite run of clock readings, one per pass (the loop itself
  never returns). An exception ends the task; \<open>Done\<close> means the task is still looping
  after the last reading.
\<close>

fun imageLoop :: "guild list \<Rightarrow> datetime list \<Rightarrow> world \<Rightarrow> outcome \<times> world" where
  "imageLoop guilds [] w = (Done, w)"
| "imageLoop guilds (now # later) w =
     (case imageLoop_body guilds now w of
        (Raised e, w1) \<Rightarrow> (Raised e, w1)
      | (Done, w1) \<Rightarrow> imageLoop guilds later w1)"

text \<open>
  The number of daily checks the loop has started: each one logs \<open>check_msg\<close> at level
  INFO, and nothing else logs that record.
\<close>

definition checks_started :: "world \<Rightarrow> nat" where
  "checks_started w = length (filter (\<lambda>e. e = (INFO, check_msg)) (logged w))"

definition same_date :: "datetime \<Rightarrow> datetime \<Rightarrow> bool" where
  "same_date a b = (year a = year b \<and> month a = month b \<and> day a = day b)"

subsection \<open>Reachable states\<close>

text \<open>
  Every entry of a schedule table names an image of the registry of the same category.
\<close>

definition refs_ok :: "string \<Rightarrow> guild_conf \<Rightarrow> bool" where
  "refs_ok imageType c =
     list_all (\<lambda>(date, imageName). has_key imageName (get_images imageType c))
       (get_dates imageType c)"

text \<open>
  What the commands keep true of one category of one guild: the schedule table has no key
  twice, and its entries name registered images.
\<close>

definition inv1 :: "string \<Rightarrow> guild_conf \<Rightarrow> bool" where
  "inv1 t c = (wf_dict (get_dates t c) \<and> refs_ok t c)"

text \<open>
  The states of the cog: it starts with the configuration \<^verbatim>\<open>BASE_GUILD\<close> for every
  guild, and then runs its commands and passes of the daily loop, with any arguments.
\<close>

inductive reachable :: "world \<Rightarrow> bool" where
  start: "config w = (\<lambda>_. BASE_GUILD) \<Longrightarrow> reachable w"
| add: "reachable w \<Longrightarrow> reachable (snd (imageAdd c name imageType reply w))"
| remove: "reachable w \<Longrightarrow> reachable (snd (imageRemove c name imageType reply w))"
| dateSet: "reachable w \<Longrightarrow> reachable (snd (imageDateSet c m d name imageType w))"
| dateReset: "reachable w \<Longrightarrow> reachable (snd (imageDateReset c m d imageType w))"
| list: "reachable w \<Longrightarrow> reachable (snd (imageList c imageType w))"
| loop: "reachable w \<Longrightarrow> reachable (snd (imageLoop_body guilds now w))"

subsection \<open>The calendar of the specification\<close>

text \<open>
  Following the specification's words, not the code: a month/day pair is a real calendar
  date when the month is 1 to 12 and the day is within that month's length, February
  having 29 days.
\<close>

definition spec_month_length :: "int \<Rightarrow> int" where
  "spec_month_length m = [31, 29, 31, 30, 31, 30, 31, 31, 30, 31, 30, 31] ! nat (m - 1)"

definition spec_valid_date :: "int \<Rightarrow> int \<Rightarrow> bool" where
  "spec_valid_date m d = (1 \<le> m \<and> m \<le> 12 \<and> 1 \<le> d \<and> d \<le> spec_month_length m)"

subsection \<open>A sample guild\<close>

text \<open>
  Guild 7 with two icons, three scheduled dates and one of the two files on disk, and a few
  attachments; the concrete inputs on which the theorems below are evaluated.
\<close>

definition ex_guild :: guild where
  "ex_guild = \<lparr>gid = 7, gname = ''Guild'', edit_forbidden = False\<rparr>"

definition ex_conf :: guild_conf where
  "ex_conf = \<lparr>icons = [(''winter'', ''winter.png''), (''spring'', ''spring.gif'')],
               iconsDates = [(''12-25'', ''winter''), (''03-20'', ''spring''), (''12-26'', ''winter'')],
               banners = [], bannersDates = []\<rparr>"

definition ex_world :: world where
  "ex_world = \<lparr>dataFolder = ''/data'', config = (\<lambda>_. BASE_GUILD)(7 := ex_conf),
                files = [''/data/7/icons/winter.png'' \<mapsto> [1, 2]],
                sent = [], logged = [], edits = [],
                lastChecked = \<lparr>year = 2020, month = 12, day = 24\<rparr>\<rparr>"

definition ex_ctx :: "attachment list \<Rightarrow> ctx" where
  "ex_ctx atts = \<lparr>ctx_guild = ex_guild, attachments = atts\<rparr>"

definition ex_gif :: attachment where
  "ex_gif = \<lparr>filename = ''Snow.GIF'', height = Some 200, width = Some 200, content = [3, 4]\<rparr>"

definition ex_txt :: attachment where
  "ex_txt = \<lparr>filename = ''notes.txt'', height = None, width = None, content = [5]\<rparr>"

definition ex_jpg :: attachment where
  "ex_jpg = \<lparr>filename = ''photo.jpg'', height = Some 10, width = Some 10, content = [6]\<rparr>"

text \<open>The same cog right after it is loaded: nothing registered, nothing on disk.\<close>

definition ex_start :: world where
  "ex_start = ex_world\<lparr>config := \<lambda>_. BASE_GUILD, files := Map.empty\<rparr>"

section \<open>Verification\<close>

subsection \<open>Calendar dates\<close>

lemma month_cases:
  "1 \<le> m \<Longrightarrow> m \<le> 12 \<Longrightarrow>
   (m::int) = 1 \<or> m = 2 \<or> m = 3 \<or> m = 4 \<or> m = 5 \<or> m = 6
     \<or> m = 7 \<or> m = 8 \<or> m = 9 \<or> m = 10 \<or> m = 11 \<or> m = 12"
  by arith

lemma days_in_month_2020:
  "1 \<le> m \<Longrightarrow> m \<le> 12 \<Longrightarrow> days_in_month 2020 m = spec_month_length m"
  using month_cases [of m]
  by (auto simp: days_in_month_def spec_month_length_def is_leap_def)

lemma spec_month_length_le: "1 \<le> m \<Longrightarrow> m \<le> 12 \<Longrightarrow> spec_month_length m \<le> 31"
  using month_cases [of m] by (auto simp: spec_month_length_def)

lemma c_int_2020: "c_int 2020"
  by (simp add: c_int_def)

lemma datetime_new_valid:
  "spec_valid_date m d \<Longrightarrow> datetime_new 2020 m d = Inr \<lparr>year = 2020, month = m, day = d\<rparr>"
  using spec_month_length_le [of m]
  by (simp add: spec_valid_date_def datetime_new_def c_int_def days_in_month_2020)

lemma datetime_new_invalid:
  "\<not> spec_valid_date m d \<Longrightarrow>
   datetime_new 2020 m d = Inl ValueError \<or> datetime_new 2020 m d = Inl OverflowError"
  by (auto simp: spec_valid_date_def datetime_new_def days_in_month_2020)

lemma validDate_valid: "spec_valid_date m d \<Longrightarrow> validDate m d = Inr True"
  by (simp add: validDate_def datetime_new_valid)

lemma validDate_invalid: "\<not> spec_valid_date m d \<Longrightarrow> validDate m d \<noteq> Inr True"
  using datetime_new_invalid [of m d] by (auto simp: validDate_def)

text \<open>
  On arguments that fit a C \<^verbatim>\<open>int\<close>, \<^verbatim>\<open>validDate\<close> decides exactly the calendar of
  the specification.
\<close>

lemma validDate_c_int:
  "c_int m \<Longrightarrow> c_int d \<Longrightarrow> validDate m d = Inr (spec_valid_date m d)"
  by (auto simp: validDate_def datetime_new_def spec_valid_date_def days_in_month_2020
      c_int_2020)

text \<open>
  C3. \<^verbatim>\<open>validDate\<close> is to return true for every real calendar date and false for
  every other pair, month 13 with any day among them. For month 13 and day \<open>2^31\<close> it
  returns nothing: \<^verbatim>\<open>datetime\<close> raises OverflowError, which \<^verbatim>\<open>validDate\<close> does not
  catch.
\<close>

theorem validDate_overflow: "validDate 13 2147483648 = Inl OverflowError"
  by (simp add: validDate_def datetime_new_def c_int_def)

subsection \<open>State access and attachments\<close>

lemma send_fields [simp]:
  "files (send m w) = files w" "config (send m w) = config w"
  "sent (send m w) = sent w @ [Text m]" "logged (send m w) = logged w"
  "edits (send m w) = edits w" "lastChecked (send m w) = lastChecked w"
  "dataFolder (send m w) = dataFolder w"
  by (simp_all add: send_def)

lemma log_fields [simp]:
  "files (log l m w) = files w" "config (log l m w) = config w"
  "sent (log l m w) = sent w" "logged (log l m w) = logged w @ [(l, m)]"
  "edits (log l m w) = edits w" "lastChecked (log l m w) = lastChecked w"
  "dataFolder (log l m w) = dataFolder w"
  by (simp_all add: log_def)

lemma put_images_fields [simp]:
  "files (put_images g t d w) = files w"
  "config (put_images g t d w) = (config w)(gid g := set_images t d (config w (gid g)))"
  "sent (put_images g t d w) = sent w" "logged (put_images g t d w) = logged w"
  "edits (put_images g t d w) = edits w" "lastChecked (put_images g t d w) = lastChecked w"
  "dataFolder (put_images g t d w) = dataFolder w"
  by (simp_all add: put_images_def)

lemma put_dates_fields [simp]:
  "files (put_dates g t d w) = files w"
  "config (put_dates g t d w) = (config w)(gid g := set_dates t d (config w (gid g)))"
  "sent (put_dates g t d w) = sent w" "logged (put_dates g t d w) = logged w"
  "edits (put_dates g t d w) = edits w" "lastChecked (put_dates g t d w) = lastChecked w"
  "dataFolder (put_dates g t d w) = dataFolder w"
  by (simp_all add: put_dates_def)

lemma getSingular_valid:
  "imageType = ''icons'' \<or> imageType = ''banners'' \<Longrightarrow>
   \<exists>s. getSingularImageType imageType = Inr s"
  by (auto simp: getSingularImageType_def)

lemma getFullFilepath_valid:
  "imageType = ''icons'' \<or> imageType = ''banners'' \<Longrightarrow>
   getFullFilepath w g fname imageType =
     Inr (dataFolder w @ ''/'' @ str_nat (gid g) @ ''/'' @ imageType @ ''/'' @ fname)"
  by (auto simp: getFullFilepath_def)

lemma imageAdd_not_confirmed:
  assumes "has_key name (get_images imageType (config w (gid (ctx_guild c))))"
    and "\<forall>r. reply = Some r \<longrightarrow> str_lower r \<noteq> ''yes''"
  shows "files (snd (imageAdd c name imageType reply w)) = files w
       \<and> config (snd (imageAdd c name imageType reply w)) = config w"
  using assms
  by (auto simp: imageAdd_def Let_def split: sum.splits error.splits option.splits)

lemma imageAdd_save_effect:
  assumes "imageType = ''icons'' \<or> imageType = ''banners''"
  shows "fst (imageAdd_save c name imageType sing w) = Done"
    and "files (snd (imageAdd_save c name imageType sing w)) =
          (files w)(dataFolder w @ ''/'' @ str_nat (gid (ctx_guild c)) @ ''/'' @ imageType @ ''/''
             @ name @ str_lower (snd (splitext (filename (hd (attachments c)))))
           \<mapsto> content (hd (attachments c)))"
    and "config (snd (imageAdd_save c name imageType sing w)) =
          (config w)(gid (ctx_guild c) := set_images imageType
             (AList.update name (name @ str_lower (snd (splitext (filename (hd (attachments c))))))
                (get_images imageType (config w (gid (ctx_guild c)))))
             (config w (gid (ctx_guild c))))"
  using assms
  by (auto simp: imageAdd_save_def Let_def getFullFilepath_valid)

text \<open>
  C7. \<^verbatim>\<open>imageAdd\<close> rejects a message that does not carry exactly one attachment,
  an attachment with neither height nor width, and an attachment whose extension in lower
  case is neither \<^verbatim>\<open>.png\<close> nor \<^verbatim>\<open>.gif\<close>. Each time the command answers with
  its message and returns; no file is written and the configuration stays as it was.
\<close>

theorem imageAdd_rejects:
  assumes "imageType = ''icons'' \<or> imageType = ''banners''"
  shows "(length (attachments c) \<noteq> 1 \<longrightarrow>
            imageAdd c name imageType reply w = (Done, send ''Please attach one file!'' w))
       \<and> (attachments c = [a] \<and> falsy (height a) \<and> falsy (width a) \<longrightarrow>
            imageAdd c name imageType reply w =
              (Done, send ''The file is not an image, please upload an image!'' w))
       \<and> (attachments c = [a] \<and> \<not> (falsy (height a) \<and> falsy (width a))
            \<and> str_lower (snd (splitext (filename a))) \<notin> {''.png'', ''.gif''} \<longrightarrow>
            imageAdd c name imageType reply w =
              (Done, send ''Please upload a PNG or GIF image!'' w))
       \<and> (length (attachments c) \<noteq> 1
            \<or> attachments c = [a] \<and> (falsy (height a) \<and> falsy (width a)
                 \<or> str_lower (snd (splitext (filename a))) \<notin> {''.png'', ''.gif''}) \<longrightarrow>
            fst (imageAdd c name imageType reply w) = Done
            \<and> files (snd (imageAdd c name imageType reply w)) = files w
            \<and> config (snd (imageAdd c name imageType reply w)) = config w)"
  using assms
  by (auto simp: imageAdd_def validateImageAttachment_def getSingularImageType_def Let_def)

theorem imageAdd_rejects_witness:
  "imageAdd (ex_ctx []) ''tree'' ''icons'' None ex_world
     = (Done, send ''Please attach one file!'' ex_world)
   \<and> imageAdd (ex_ctx [ex_gif, ex_gif]) ''tree'' ''icons'' None ex_world
     = (Done, send ''Please attach one file!'' ex_world)
   \<and> imageAdd (ex_ctx [ex_txt]) ''tree'' ''banners'' None ex_world
     = (Done, send ''The file is not an image, please upload an image!'' ex_world)
   \<and> imageAdd (ex_ctx [ex_jpg]) ''tree'' ''icons'' None ex_world
     = (Done, send ''Please upload a PNG or GIF image!'' ex_world)
   \<and> files (snd (imageAdd (ex_ctx [ex_jpg]) ''tree'' ''icons'' None ex_world)) = files ex_world
   \<and> config (snd (imageAdd (ex_ctx [ex_jpg]) ''tree'' ''icons'' None ex_world)) = config ex_world"
  using imageAdd_rejects [of "''icons''" "ex_ctx []" "''tree''" None ex_world ex_gif]
    imageAdd_rejects [of "''icons''" "ex_ctx [ex_gif, ex_gif]" "''tree''" None ex_world ex_gif]
    imageAdd_rejects [of "''banners''" "ex_ctx [ex_txt]" "''tree''" None ex_world ex_txt]
    imageAdd_rejects [of "''icons''" "ex_ctx [ex_jpg]" "''tree''" None ex_world ex_jpg]
  by (simp add: ex_ctx_def ex_txt_def ex_jpg_def falsy_def splitext_def rfind_def
      splitext_loop.simps str_lower_def lower_char_def)

subsection \<open>Dictionaries and the cascade of \<^verbatim>\<open>imageRemove\<close>\<close>

lemma has_key_map_of: "has_key k d \<longleftrightarrow> map_of d k \<noteq> None"
  by (simp add: has_key_def map_of_eq_None_iff)

lemma getitem_has_key: "has_key k d \<Longrightarrow> \<exists>v. getitem d k = Inr v \<and> map_of d k = Some v"
  by (auto simp: getitem_def has_key_map_of)

lemma delitem_has_key: "has_key k d \<Longrightarrow> delitem k d = Inr (AList.delete k d)"
  by (simp add: delitem_def)

lemma delete_filter: "AList.delete k d = filter (\<lambda>(k', v). k' \<noteq> k) d"
  by (induction d) (auto simp: )

lemma del_dates_filter:
  "set ks \<subseteq> fst ` set dates \<Longrightarrow> distinct ks \<Longrightarrow>
   del_dates ks dates = Inr (filter (\<lambda>(d, n). d \<notin> set ks) dates)"
proof (induction ks arbitrary: dates)
  case Nil
  then show ?case by simp
next
  case (Cons k ks)
  have hk: "has_key k dates" using Cons.prems by (auto simp: has_key_def)
  have "fst ` set (AList.delete k dates) = fst ` set dates - {k}"
    by (auto simp: delete_filter image_iff)
  then have sub: "set ks \<subseteq> fst ` set (AList.delete k dates)"
    using Cons.prems by auto
  have "del_dates (k # ks) dates = del_dates ks (AList.delete k dates)"
    using hk by (simp add: delitem_has_key)
  also have "\<dots> = Inr (filter (\<lambda>(d, n). d \<notin> set ks) (AList.delete k dates))"
    using Cons.IH [OF sub] Cons.prems by simp
  also have "filter (\<lambda>(d, n). d \<notin> set ks) (AList.delete k dates)
      = filter (\<lambda>(d, n). d \<notin> set (k # ks)) dates"
    by (auto simp: delete_filter intro: filter_cong)
  finally show ?case .
qed

lemma datesToRemove_sub: "set (datesToRemove name dates) \<subseteq> fst ` set dates"
  by (auto simp: datesToRemove_def image_iff)

lemma datesToRemove_distinct: "wf_dict dates \<Longrightarrow> distinct (datesToRemove name dates)"
  by (simp add: datesToRemove_def wf_dict_def distinct_map_filter)

lemma datesToRemove_mem:
  "wf_dict dates \<Longrightarrow> (d, n) \<in> set dates \<Longrightarrow> d \<in> set (datesToRemove name dates) \<longleftrightarrow> n = name"
  by (auto simp: datesToRemove_def wf_dict_def image_iff dest: eq_key_imp_eq_value)

lemma del_dates_cascade:
  assumes "wf_dict dates"
  shows "del_dates (datesToRemove name dates) dates = Inr (filter (\<lambda>(d, n). n \<noteq> name) dates)"
proof -
  have "filter (\<lambda>(d, n). d \<notin> set (datesToRemove name dates)) dates
      = filter (\<lambda>(d, n). n \<noteq> name) dates"
    using datesToRemove_mem [OF assms] by (auto intro: filter_cong)
  then show ?thesis
    using del_dates_filter [OF datesToRemove_sub datesToRemove_distinct [OF assms], of name]
    by simp
qed

lemma map_of_filter_value:
  "wf_dict dates \<Longrightarrow>
   map_of (filter (\<lambda>(d, n). n \<noteq> name) dates) k
     = (if map_of dates k = Some name then None else map_of dates k)"
proof (induction dates)
  case Nil
  then show ?case by simp
next
  case (Cons p dates)
  obtain d n where p: "p = (d, n)" by (cases p)
  have wf: "wf_dict dates" and nd: "d \<notin> fst ` set dates"
    using Cons.prems by (auto simp: wf_dict_def p)
  have none: "map_of (filter (\<lambda>(d, n). n \<noteq> name) dates) d = None"
    using nd by (auto simp: map_of_eq_None_iff image_iff)
  show ?case using Cons.IH [OF wf] none by (auto simp: p)
qed


lemma get_set_same [simp]:
  "get_images t (set_images t d c) = d"
  "get_dates t (set_dates t d c) = d"
  "get_images t (set_dates t' d c) = get_images t c"
  "get_dates t (set_images t' d c) = get_dates t c"
  by (simp_all add: get_images_def get_dates_def set_images_def set_dates_def)

lemma foldl_log_fields [simp]:
  "files (foldl (\<lambda>v _. log l m v) w xs) = files w"
  "config (foldl (\<lambda>v _. log l m v) w xs) = config w"
  by (induction xs arbitrary: w) simp_all

lemma imageRemove_not_confirmed:
  assumes "\<forall>r. reply = Some r \<longrightarrow> str_lower r \<noteq> ''yes''"
  shows "files (snd (imageRemove c name imageType reply w)) = files w
       \<and> config (snd (imageRemove c name imageType reply w)) = config w"
  using assms
  by (auto simp: imageRemove_def Let_def split: sum.splits option.splits)

lemma imageRemove_confirmed:
  assumes t: "imageType = ''icons'' \<or> imageType = ''banners''"
    and k: "has_key name (get_images imageType (config w (gid (ctx_guild c))))"
    and y: "str_lower r = ''yes''"
    and wf: "wf_dict (get_dates imageType (config w (gid (ctx_guild c))))"
  shows "fst (imageRemove c name imageType (Some r) w) = Done"
    and "config (snd (imageRemove c name imageType (Some r) w)) =
          (config w)(gid (ctx_guild c) :=
             set_dates imageType
               (filter (\<lambda>(d, n). n \<noteq> name) (get_dates imageType (config w (gid (ctx_guild c)))))
               (set_images imageType
                  (AList.delete name (get_images imageType (config w (gid (ctx_guild c)))))
                  (config w (gid (ctx_guild c)))))"
proof -
  obtain sing where s: "getSingularImageType imageType = Inr sing"
    using getSingular_valid [OF t] by blast
  obtain v where v: "getitem (get_images imageType (config w (gid (ctx_guild c)))) name = Inr v"
    using getitem_has_key [OF k] by blast
  note facts = s v y k delitem_has_key [OF k] del_dates_cascade [OF wf]
    getFullFilepath_valid [OF t]
  show "fst (imageRemove c name imageType (Some r) w) = Done"
    using facts by (simp add: imageRemove_def Let_def split: option.splits)
  show "config (snd (imageRemove c name imageType (Some r) w)) =
          (config w)(gid (ctx_guild c) :=
             set_dates imageType
               (filter (\<lambda>(d, n). n \<noteq> name) (get_dates imageType (config w (gid (ctx_guild c)))))
               (set_images imageType
                  (AList.delete name (get_images imageType (config w (gid (ctx_guild c)))))
                  (config w (gid (ctx_guild c)))))"
    using facts by (simp add: imageRemove_def Let_def split: option.splits)
qed


text \<open>
  C1. For every guild and category: removing an image \<open>name\<close> of the registry, once the
  reply in lower case is \<^verbatim>\<open>yes\<close>, deletes the registry entry of \<open>name\<close> and
  deletes exactly the schedule entries whose value is \<open>name\<close>; every schedule
  entry with another value stays as it was.
\<close>

theorem imageRemove_cascade:
  assumes "imageType = ''icons'' \<or> imageType = ''banners''"
    and "has_key name (get_images imageType (config w (gid (ctx_guild c))))"
    and "wf_dict (get_dates imageType (config w (gid (ctx_guild c))))"
    and "str_lower r = ''yes''"
  shows "fst (imageRemove c name imageType (Some r) w) = Done
       \<and> map_of (get_images imageType
            (config (snd (imageRemove c name imageType (Some r) w)) (gid (ctx_guild c)))) name = None
       \<and> (\<forall>date. map_of (get_dates imageType
              (config (snd (imageRemove c name imageType (Some r) w)) (gid (ctx_guild c)))) date
            = (if map_of (get_dates imageType (config w (gid (ctx_guild c)))) date = Some name
               then None
               else map_of (get_dates imageType (config w (gid (ctx_guild c)))) date))"
  using imageRemove_confirmed [OF assms(1) assms(2) assms(4) assms(3)]
    map_of_filter_value [OF assms(3), of name]
  by (simp add: AList.delete_conv')

theorem imageRemove_cascade_witness:
  "has_key ''winter'' (get_images ''icons'' (config ex_world (gid (ctx_guild (ex_ctx [])))))
   \<and> wf_dict (get_dates ''icons'' (config ex_world (gid (ctx_guild (ex_ctx [])))))
   \<and> str_lower ''Yes'' = ''yes''
   \<and> fst (imageRemove (ex_ctx []) ''winter'' ''icons'' (Some ''Yes'') ex_world) = Done
   \<and> map_of (get_images ''icons''
        (config (snd (imageRemove (ex_ctx []) ''winter'' ''icons'' (Some ''Yes'') ex_world)) 7))
        ''winter'' = None
   \<and> map_of (get_dates ''icons''
        (config (snd (imageRemove (ex_ctx []) ''winter'' ''icons'' (Some ''Yes'') ex_world)) 7))
        ''12-25'' = None
   \<and> map_of (get_dates ''icons''
        (config (snd (imageRemove (ex_ctx []) ''winter'' ''icons'' (Some ''Yes'') ex_world)) 7))
        ''12-26'' = None
   \<and> map_of (get_dates ''icons''
        (config (snd (imageRemove (ex_ctx []) ''winter'' ''icons'' (Some ''Yes'') ex_world)) 7))
        ''03-20'' = Some ''spring''"
proof -
  have h1: "''icons'' = ''icons'' \<or> ''icons'' = ''banners''" by simp
  have h2: "has_key ''winter'' (get_images ''icons'' (config ex_world (gid (ctx_guild (ex_ctx [])))))"
    by (simp add: has_key_def get_images_def ex_world_def ex_ctx_def ex_guild_def ex_conf_def)
  have h3: "wf_dict (get_dates ''icons'' (config ex_world (gid (ctx_guild (ex_ctx [])))))"
    by (simp add: wf_dict_def get_dates_def ex_world_def ex_ctx_def ex_guild_def ex_conf_def)
  have h4: "str_lower ''Yes'' = ''yes''"
    by (simp add: str_lower_def lower_char_def)
  have g: "gid (ctx_guild (ex_ctx [])) = 7"
    by (simp add: ex_ctx_def ex_guild_def)
  have d: "get_dates ''icons'' (config ex_world 7)
      = [(''12-25'', ''winter''), (''03-20'', ''spring''), (''12-26'', ''winter'')]"
    by (simp add: get_dates_def ex_world_def ex_conf_def)
  show ?thesis
    using imageRemove_cascade [OF h1 h2 h3 h4] h2 h3 h4
    by (simp add: g d)
qed

subsection \<open>Confirmation\<close>

lemma imageAdd_confirmed:
  assumes t: "imageType = ''icons'' \<or> imageType = ''banners''"
    and v: "validateImageAttachment (attachments c) = Inr ()"
    and k: "has_key name (get_images imageType (config w (gid (ctx_guild c))))"
    and y: "str_lower r = ''yes''"
  shows "fst (imageAdd c name imageType (Some r) w) = Done"
    and "files (snd (imageAdd c name imageType (Some r) w)) =
          (files w)(dataFolder w @ ''/'' @ str_nat (gid (ctx_guild c)) @ ''/'' @ imageType @ ''/''
             @ name @ str_lower (snd (splitext (filename (hd (attachments c)))))
           \<mapsto> content (hd (attachments c)))"
    and "config (snd (imageAdd c name imageType (Some r) w)) =
          (config w)(gid (ctx_guild c) := set_images imageType
             (AList.update name (name @ str_lower (snd (splitext (filename (hd (attachments c))))))
                (get_images imageType (config w (gid (ctx_guild c)))))
             (config w (gid (ctx_guild c))))"
proof -
  obtain sing where s: "getSingularImageType imageType = Inr sing"
    using getSingular_valid [OF t] by blast
  have eq: "imageAdd c name imageType (Some r) w =
      imageAdd_save c name imageType sing
        (send ('':warning: This '' @ sing @ '' already exists. Would you like to overwrite ''
               @ ''it? Please type `yes` to overwrite.'') w)"
    using s v k y by (simp add: imageAdd_def Let_def)
  show "fst (imageAdd c name imageType (Some r) w) = Done"
    unfolding eq using imageAdd_save_effect(1) [OF t] by simp
  show "files (snd (imageAdd c name imageType (Some r) w)) =
          (files w)(dataFolder w @ ''/'' @ str_nat (gid (ctx_guild c)) @ ''/'' @ imageType @ ''/''
             @ name @ str_lower (snd (splitext (filename (hd (attachments c)))))
           \<mapsto> content (hd (attachments c)))"
    unfolding eq using imageAdd_save_effect(2) [OF t] by simp
  show "config (snd (imageAdd c name imageType (Some r) w)) =
          (config w)(gid (ctx_guild c) := set_images imageType
             (AList.update name (name @ str_lower (snd (splitext (filename (hd (attachments c))))))
                (get_images imageType (config w (gid (ctx_guild c)))))
             (config w (gid (ctx_guild c))))"
    unfolding eq using imageAdd_save_effect(3) [OF t] by simp
qed

lemma imageAdd_Done:
  assumes "imageType = ''icons'' \<or> imageType = ''banners''"
  shows "fst (imageAdd c name imageType reply w) = Done"
  using assms imageAdd_save_effect(1) [OF assms]
  by (auto simp: imageAdd_def Let_def getSingularImageType_def validateImageAttachment_def
      split: option.splits)

lemma imageRemove_Done_not_confirmed:
  assumes "imageType = ''icons'' \<or> imageType = ''banners''"
    and "\<forall>r. reply = Some r \<longrightarrow> str_lower r \<noteq> ''yes''"
  shows "fst (imageRemove c name imageType reply w) = Done"
  using assms
  by (auto simp: imageRemove_def Let_def getSingularImageType_def split: option.splits)

text \<open>
  C2. Adding an image whose name is already in the registry of that guild and category:
  when the wait times out, or the reply in lower case is not \<^verbatim>\<open>yes\<close>, the files and
  the configuration stay as they were. With a valid attachment and a reply that is
  \<^verbatim>\<open>yes\<close> in lower case, the file is written and the registry entry points to it.
\<close>

theorem imageAdd_overwrite_confirmation:
  assumes "has_key name (get_images imageType (config w (gid (ctx_guild c))))"
  shows "((\<forall>r. reply = Some r \<longrightarrow> str_lower r \<noteq> ''yes'') \<longrightarrow>
            files (snd (imageAdd c name imageType reply w)) = files w
          \<and> config (snd (imageAdd c name imageType reply w)) = config w)
       \<and> ((imageType = ''icons'' \<or> imageType = ''banners'')
            \<and> validateImageAttachment (attachments c) = Inr ()
            \<and> reply = Some r \<and> str_lower r = ''yes'' \<longrightarrow>
            fst (imageAdd c name imageType reply w) = Done
          \<and> files (snd (imageAdd c name imageType reply w))
               (dataFolder w @ ''/'' @ str_nat (gid (ctx_guild c)) @ ''/'' @ imageType @ ''/''
                 @ name @ str_lower (snd (splitext (filename (hd (attachments c))))))
             = Some (content (hd (attachments c)))
          \<and> map_of (get_images imageType
               (config (snd (imageAdd c name imageType reply w)) (gid (ctx_guild c)))) name
             = Some (name @ str_lower (snd (splitext (filename (hd (attachments c)))))))"
  using imageAdd_not_confirmed [OF assms, of reply] imageAdd_confirmed [OF _ _ assms, of r]
  by (auto simp: AList.update_conv')


lemma ex_gid: "gid (ctx_guild (ex_ctx atts)) = 7"
  by (simp add: ex_ctx_def ex_guild_def)

lemma ex_atts: "attachments (ex_ctx atts) = atts"
  by (simp add: ex_ctx_def)

lemma ex_icons:
  "get_images ''icons'' (config ex_world 7) = [(''winter'', ''winter.png''), (''spring'', ''spring.gif'')]"
  by (simp add: get_images_def ex_world_def ex_conf_def)

lemma ex_iconsDates:
  "get_dates ''icons'' (config ex_world 7)
     = [(''12-25'', ''winter''), (''03-20'', ''spring''), (''12-26'', ''winter'')]"
  by (simp add: get_dates_def ex_world_def ex_conf_def)

lemma ex_gif_ext: "str_lower (snd (splitext (filename ex_gif))) = ''.gif''"
  by (simp add: ex_gif_def splitext_def rfind_def splitext_loop.simps str_lower_def lower_char_def)

lemma ex_gif_valid: "validateImageAttachment [ex_gif] = Inr ()"
  using ex_gif_ext by (simp add: validateImageAttachment_def falsy_def) (simp add: ex_gif_def)

lemma str_lower_YES: "str_lower ''YES'' = ''yes''"
  by (simp add: str_lower_def lower_char_def)

lemma str_nat_7: "str_nat 7 = ''7''"
  by (simp add: str_nat.simps digit_char_def)

theorem imageAdd_overwrite_confirmation_witness:
  "has_key ''winter'' (get_images ''icons'' (config ex_world (gid (ctx_guild (ex_ctx [ex_gif])))))
   \<and> files (snd (imageAdd (ex_ctx [ex_gif]) ''winter'' ''icons'' None ex_world)) = files ex_world
   \<and> config (snd (imageAdd (ex_ctx [ex_gif]) ''winter'' ''icons'' None ex_world)) = config ex_world
   \<and> files (snd (imageAdd (ex_ctx [ex_gif]) ''winter'' ''icons'' (Some ''no'') ex_world))
       = files ex_world
   \<and> config (snd (imageAdd (ex_ctx [ex_gif]) ''winter'' ''icons'' (Some ''no'') ex_world))
       = config ex_world
   \<and> fst (imageAdd (ex_ctx [ex_gif]) ''winter'' ''icons'' (Some ''YES'') ex_world) = Done
   \<and> files (snd (imageAdd (ex_ctx [ex_gif]) ''winter'' ''icons'' (Some ''YES'') ex_world))
        ''/data/7/icons/winter.gif'' = Some [3, 4]
   \<and> map_of (get_images ''icons''
        (config (snd (imageAdd (ex_ctx [ex_gif]) ''winter'' ''icons'' (Some ''YES'') ex_world)) 7))
        ''winter'' = Some ''winter.gif''"
proof -
  have k: "has_key ''winter''
      (get_images ''icons'' (config ex_world (gid (ctx_guild (ex_ctx [ex_gif])))))"
    by (simp add: ex_gid ex_icons has_key_def)
  have no: "str_lower ''no'' \<noteq> ''yes''"
    by (simp add: str_lower_def lower_char_def)
  have df: "dataFolder ex_world = ''/data''"
    by (simp add: ex_world_def)
  have ct: "content ex_gif = [3, 4]"
    by (simp add: ex_gif_def)
  show ?thesis
    using imageAdd_overwrite_confirmation [OF k, of None]
      imageAdd_overwrite_confirmation [OF k, of "Some ''no''"]
      imageAdd_overwrite_confirmation [OF k, of "Some ''YES''" "''YES''"]
      k no
    by (simp add: ex_gid ex_atts ex_gif_ext ex_gif_valid str_lower_YES str_nat_7 df ct)
qed

text \<open>
  C10. The confirmation of an overwrite in \<^verbatim>\<open>imageAdd\<close> and of
  \<^verbatim>\<open>imageRemove\<close> is affirmative exactly when the reply in lower case is
  \<^verbatim>\<open>yes\<close>: then the command goes on (the file and registry entry are written, the
  registry entry is deleted); with any other reply it returns with the files and the
  configuration unchanged.
\<close>

theorem confirmation_lower_yes:
  assumes "imageType = ''icons'' \<or> imageType = ''banners''"
    and "has_key name (get_images imageType (config w (gid (ctx_guild c))))"
  shows "(validateImageAttachment (attachments c) = Inr () \<longrightarrow>
           (if str_lower r = ''yes''
            then fst (imageAdd c name imageType (Some r) w) = Done
               \<and> files (snd (imageAdd c name imageType (Some r) w))
                    (dataFolder w @ ''/'' @ str_nat (gid (ctx_guild c)) @ ''/'' @ imageType @ ''/''
                      @ name @ str_lower (snd (splitext (filename (hd (attachments c))))))
                  = Some (content (hd (attachments c)))
               \<and> map_of (get_images imageType
                    (config (snd (imageAdd c name imageType (Some r) w)) (gid (ctx_guild c)))) name
                  = Some (name @ str_lower (snd (splitext (filename (hd (attachments c))))))
            else fst (imageAdd c name imageType (Some r) w) = Done
               \<and> files (snd (imageAdd c name imageType (Some r) w)) = files w
               \<and> config (snd (imageAdd c name imageType (Some r) w)) = config w))
       \<and> (wf_dict (get_dates imageType (config w (gid (ctx_guild c)))) \<longrightarrow>
           (if str_lower r = ''yes''
            then fst (imageRemove c name imageType (Some r) w) = Done
               \<and> \<not> has_key name (get_images imageType
                    (config (snd (imageRemove c name imageType (Some r) w)) (gid (ctx_guild c))))
            else fst (imageRemove c name imageType (Some r) w) = Done
               \<and> files (snd (imageRemove c name imageType (Some r) w)) = files w
               \<and> config (snd (imageRemove c name imageType (Some r) w)) = config w))"
proof (cases "str_lower r = ''yes''")
  case True
  have a: "validateImageAttachment (attachments c) = Inr () \<Longrightarrow>
      fst (imageAdd c name imageType (Some r) w) = Done
      \<and> files (snd (imageAdd c name imageType (Some r) w))
            (dataFolder w @ ''/'' @ str_nat (gid (ctx_guild c)) @ ''/'' @ imageType @ ''/''
              @ name @ str_lower (snd (splitext (filename (hd (attachments c))))))
          = Some (content (hd (attachments c)))
      \<and> map_of (get_images imageType
            (config (snd (imageAdd c name imageType (Some r) w)) (gid (ctx_guild c)))) name
          = Some (name @ str_lower (snd (splitext (filename (hd (attachments c))))))"
    using imageAdd_confirmed [OF assms(1) _ assms(2) True]
    by (simp add: AList.update_conv')
  have b: "wf_dict (get_dates imageType (config w (gid (ctx_guild c)))) \<Longrightarrow>
      fst (imageRemove c name imageType (Some r) w) = Done
      \<and> \<not> has_key name (get_images imageType
            (config (snd (imageRemove c name imageType (Some r) w)) (gid (ctx_guild c))))"
    using imageRemove_confirmed [OF assms(1) assms(2) True]
    by (simp add: has_key_map_of AList.delete_conv')
  show ?thesis using True a b by simp
next
  case False
  then have nc: "\<forall>r'. Some r = Some r' \<longrightarrow> str_lower r' \<noteq> ''yes''" by simp
  show ?thesis
    using False imageAdd_not_confirmed [OF assms(2) nc] imageRemove_not_confirmed [OF nc]
      imageAdd_Done [OF assms(1)] imageRemove_Done_not_confirmed [OF assms(1) nc]
    by simp
qed


theorem confirmation_lower_yes_witness:
  "has_key ''winter'' (get_images ''icons'' (config ex_world (gid (ctx_guild (ex_ctx [ex_gif])))))
   \<and> validateImageAttachment (attachments (ex_ctx [ex_gif])) = Inr ()
   \<and> wf_dict (get_dates ''icons'' (config ex_world (gid (ctx_guild (ex_ctx [ex_gif])))))
   \<and> str_lower ''YES'' = ''yes'' \<and> str_lower ''y'' \<noteq> ''yes''
   \<and> files (snd (imageAdd (ex_ctx [ex_gif]) ''winter'' ''icons'' (Some ''YES'') ex_world))
        ''/data/7/icons/winter.gif'' = Some [3, 4]
   \<and> config (snd (imageAdd (ex_ctx [ex_gif]) ''winter'' ''icons'' (Some ''y'') ex_world))
        = config ex_world
   \<and> \<not> has_key ''winter'' (get_images ''icons''
        (config (snd (imageRemove (ex_ctx [ex_gif]) ''winter'' ''icons'' (Some ''YES'') ex_world)) 7))
   \<and> config (snd (imageRemove (ex_ctx [ex_gif]) ''winter'' ''icons'' (Some ''y'') ex_world))
        = config ex_world"
proof -
  have t: "''icons'' = ''icons'' \<or> ''icons'' = ''banners''" by simp
  have k: "has_key ''winter''
      (get_images ''icons'' (config ex_world (gid (ctx_guild (ex_ctx [ex_gif])))))"
    by (simp add: ex_gid ex_icons has_key_def)
  have wf: "wf_dict (get_dates ''icons'' (config ex_world (gid (ctx_guild (ex_ctx [ex_gif])))))"
    by (simp add: ex_gid ex_iconsDates wf_dict_def)
  have y: "str_lower ''y'' \<noteq> ''yes''"
    by (simp add: str_lower_def lower_char_def)
  have df: "dataFolder ex_world = ''/data''"
    by (simp add: ex_world_def)
  have ct: "content ex_gif = [3, 4]"
    by (simp add: ex_gif_def)
  show ?thesis
    using confirmation_lower_yes [OF t k, of "''YES''"] confirmation_lower_yes [OF t k, of "''y''"]
      k wf y
    by (simp add: ex_gid ex_atts ex_gif_ext ex_gif_valid str_lower_YES str_nat_7 df ct)
qed

subsection \<open>Scheduling a date\<close>

lemma imageDateSet_unchanged:
  assumes "\<not> spec_valid_date m d \<or> \<not> has_key name (get_images imageType (config w (gid (ctx_guild c))))"
  shows "config (snd (imageDateSet c m d name imageType w)) = config w"
    and "files (snd (imageDateSet c m d name imageType w)) = files w"
  using assms validDate_invalid [of m d]
  by (auto simp: imageDateSet_def Let_def split: sum.splits bool.splits)

lemma imageDateSet_effect:
  assumes t: "imageType = ''icons'' \<or> imageType = ''banners''"
    and v: "spec_valid_date m d"
    and k: "has_key name (get_images imageType (config w (gid (ctx_guild c))))"
  shows "fst (imageDateSet c m d name imageType w) = Done"
    and "config (snd (imageDateSet c m d name imageType w)) =
          (config w)(gid (ctx_guild c) := set_dates imageType
             (AList.update (pad2 m @ ''-'' @ pad2 d) name
                (get_dates imageType (config w (gid (ctx_guild c)))))
             (config w (gid (ctx_guild c))))"
    and "files (snd (imageDateSet c m d name imageType w)) = files w"
proof -
  obtain sing where s: "getSingularImageType imageType = Inr sing"
    using getSingular_valid [OF t] by blast
  note facts = s k validDate_valid [OF v] datetime_new_valid [OF v]
  show "fst (imageDateSet c m d name imageType w) = Done"
    using facts by (simp add: imageDateSet_def Let_def)
  show "config (snd (imageDateSet c m d name imageType w)) =
          (config w)(gid (ctx_guild c) := set_dates imageType
             (AList.update (pad2 m @ ''-'' @ pad2 d) name
                (get_dates imageType (config w (gid (ctx_guild c)))))
             (config w (gid (ctx_guild c))))"
    using facts by (simp add: imageDateSet_def Let_def strftime_md_def)
  show "files (snd (imageDateSet c m d name imageType w)) = files w"
    using facts by (simp add: imageDateSet_def Let_def)
qed

text \<open>
  C4. \<^verbatim>\<open>imageDateSet\<close>: when the month and day are not a real calendar date, or the
  name is not in the registry of that guild and category, the configuration stays as it
  was, so no schedule entry is created or changed. Otherwise the schedule table is the old
  one with the key \<^verbatim>\<open>MM-DD\<close> (two digits each) created or overwritten to map to the
  name; every other key is as before.
\<close>

theorem imageDateSet_spec:
  "(\<not> spec_valid_date m d
      \<or> \<not> has_key name (get_images imageType (config w (gid (ctx_guild c)))) \<longrightarrow>
      config (snd (imageDateSet c m d name imageType w)) = config w)
   \<and> ((imageType = ''icons'' \<or> imageType = ''banners'') \<and> spec_valid_date m d
        \<and> has_key name (get_images imageType (config w (gid (ctx_guild c)))) \<longrightarrow>
      fst (imageDateSet c m d name imageType w) = Done
      \<and> get_dates imageType (config (snd (imageDateSet c m d name imageType w)) (gid (ctx_guild c)))
          = AList.update (pad2 m @ ''-'' @ pad2 d) name
              (get_dates imageType (config w (gid (ctx_guild c))))
      \<and> (\<forall>k. map_of (get_dates imageType
                (config (snd (imageDateSet c m d name imageType w)) (gid (ctx_guild c)))) k
            = (if k = pad2 m @ ''-'' @ pad2 d then Some name
               else map_of (get_dates imageType (config w (gid (ctx_guild c)))) k))
      \<and> get_images imageType (config (snd (imageDateSet c m d name imageType w)) (gid (ctx_guild c)))
          = get_images imageType (config w (gid (ctx_guild c))))"
  using imageDateSet_unchanged(1) [of m d name imageType w c]
    imageDateSet_effect(1,2) [of imageType m d name w c]
  by (auto simp: AList.update_conv')

lemma pad2_02: "pad2 2 = ''02''" and pad2_09: "pad2 9 = ''09''" and pad2_12: "pad2 12 = ''12''"
  and pad2_25: "pad2 25 = ''25''" and pad2_30: "pad2 30 = ''30''"
  by (simp_all add: pad2_def digit_char_def)

theorem imageDateSet_spec_witness:
  "\<not> spec_valid_date 2 30
   \<and> config (snd (imageDateSet (ex_ctx []) 2 30 ''winter'' ''icons'' ex_world)) = config ex_world
   \<and> \<not> has_key ''summer'' (get_images ''icons'' (config ex_world (gid (ctx_guild (ex_ctx [])))))
   \<and> config (snd (imageDateSet (ex_ctx []) 2 9 ''summer'' ''icons'' ex_world)) = config ex_world
   \<and> spec_valid_date 2 9
   \<and> has_key ''spring'' (get_images ''icons'' (config ex_world (gid (ctx_guild (ex_ctx [])))))
   \<and> get_dates ''icons'' (config (snd (imageDateSet (ex_ctx []) 2 9 ''spring'' ''icons'' ex_world)) 7)
       = [(''12-25'', ''winter''), (''03-20'', ''spring''), (''12-26'', ''winter''),
          (''02-09'', ''spring'')]
   \<and> spec_valid_date 12 25
   \<and> get_dates ''icons'' (config (snd (imageDateSet (ex_ctx []) 12 25 ''spring'' ''icons'' ex_world)) 7)
       = [(''12-25'', ''spring''), (''03-20'', ''spring''), (''12-26'', ''winter'')]"
proof -
  have v1: "\<not> spec_valid_date 2 30" and v2: "spec_valid_date 2 9" and v3: "spec_valid_date 12 25"
    by (simp_all add: spec_valid_date_def spec_month_length_def)
  have k1: "\<not> has_key ''summer'' (get_images ''icons'' (config ex_world (gid (ctx_guild (ex_ctx [])))))"
    and k2: "has_key ''spring'' (get_images ''icons'' (config ex_world (gid (ctx_guild (ex_ctx [])))))"
    by (simp_all add: ex_gid ex_icons has_key_def)
  show ?thesis
    using imageDateSet_spec [of 2 30 "''winter''" "''icons''" ex_world "ex_ctx []"]
      imageDateSet_spec [of 2 9 "''summer''" "''icons''" ex_world "ex_ctx []"]
      imageDateSet_spec [of 2 9 "''spring''" "''icons''" ex_world "ex_ctx []"]
      imageDateSet_spec [of 12 25 "''spring''" "''icons''" ex_world "ex_ctx []"]
      v1 v2 v3 k1 k2
    by (simp add: ex_gid ex_iconsDates pad2_02 pad2_09 pad2_12 pad2_25)
qed

subsection \<open>Date keys and the list\<close>

lemma digit_cases: "n < 10 \<Longrightarrow> (n::nat) \<in> {0, 1, 2, 3, 4, 5, 6, 7, 8, 9}"
  by auto

lemma digit_char_roundtrip:
  "n < 10 \<Longrightarrow> is_digit (digit_char n) \<and> digit_val (digit_char n) = int n"
  using digit_cases [of n]
  by (auto simp: is_digit_def digit_val_def digit_char_def)

lemma pad2_digits:
  assumes "0 \<le> x" "x < 100"
  shows "list_all is_digit (pad2 x)" and "digits_val (pad2 x) = x"
proof -
  have a: "nat x div 10 < 10" and b: "nat x mod 10 < 10" using assms by auto
  show "list_all is_digit (pad2 x)"
    using digit_char_roundtrip [OF a] digit_char_roundtrip [OF b] by (simp add: pad2_def)
  have "digits_val (pad2 x) = 10 * int (nat x div 10) + int (nat x mod 10)"
    using digit_char_roundtrip [OF a] digit_char_roundtrip [OF b]
    by (simp add: pad2_def digits_val_def)
  also have "\<dots> = x" using assms by (simp add: zdiv_int zmod_int)
  finally show "digits_val (pad2 x) = x" .
qed

lemma digits_val_2020: "digits_val ''2020'' = 2020" "list_all is_digit ''2020''"
  by (simp_all add: digits_val_def digit_val_def is_digit_def)

lemma fromisoformat_key:
  assumes "spec_valid_date m d"
  shows "fromisoformat (''2020-'' @ pad2 m @ ''-'' @ pad2 d)
           = Inr \<lparr>year = 2020, month = m, day = d\<rparr>"
proof -
  have m: "0 \<le> m" "m < 100" and d: "0 \<le> d" "d < 100"
    using assms spec_month_length_le [of m] by (auto simp: spec_valid_date_def)
  obtain a b where pm: "pad2 m = [a, b]" by (simp add: pad2_def)
  obtain e f where pd: "pad2 d = [e, f]" by (simp add: pad2_def)
  have t2: "take 2 (drop 5 (''2020-'' @ pad2 m @ ''-'' @ pad2 d)) = pad2 m"
    and t3: "drop 8 (''2020-'' @ pad2 m @ ''-'' @ pad2 d) = pad2 d"
    and t1: "take 4 (''2020-'' @ pad2 m @ ''-'' @ pad2 d) = ''2020''"
    and l: "length (''2020-'' @ pad2 m @ ''-'' @ pad2 d) = 10"
    and s4: "(''2020-'' @ pad2 m @ ''-'' @ pad2 d) ! 4 = CHR ''-''"
    and s7: "(''2020-'' @ pad2 m @ ''-'' @ pad2 d) ! 7 = CHR ''-''"
    by (simp_all add: pm pd)
  show ?thesis
    unfolding fromisoformat_def t1 t2 t3 l s4 s7
    using pad2_digits [OF m] pad2_digits [OF d] digits_val_2020 datetime_new_valid [OF assms]
    by simp
qed


lemma getSingular_Inr:
  "getSingularImageType imageType = Inr sing \<Longrightarrow> imageType = ''icons'' \<or> imageType = ''banners''"
  by (auto simp: getSingularImageType_def split: if_splits)

lemma imageDateReset_present:
  assumes s: "getSingularImageType imageType = Inr sing"
    and v: "spec_valid_date m d"
    and k: "has_key (pad2 m @ ''-'' @ pad2 d) (get_dates imageType (config w (gid (ctx_guild c))))"
  shows "imageDateReset c m d imageType w =
          (Done, send (''Removed '' @ strftime_Bd \<lparr>year = 2020, month = m, day = d\<rparr> @ '' from ''
                       @ sing @ '' changes.'')
             (put_dates (ctx_guild c) imageType
                (AList.delete (pad2 m @ ''-'' @ pad2 d)
                   (get_dates imageType (config w (gid (ctx_guild c))))) w))"
  using s k validDate_valid [OF v] datetime_new_valid [OF v] delitem_has_key [OF k]
  by (simp add: imageDateReset_def Let_def strftime_md_def)

lemma imageDateReset_absent:
  assumes s: "getSingularImageType imageType = Inr sing"
    and v: "spec_valid_date m d"
    and k: "\<not> has_key (pad2 m @ ''-'' @ pad2 d) (get_dates imageType (config w (gid (ctx_guild c))))"
  shows "imageDateReset c m d imageType w =
          (Done, send (''There are no '' @ sing @ '' changes on this date!'') w)"
  using s k validDate_valid [OF v] datetime_new_valid [OF v]
  by (simp add: imageDateReset_def Let_def strftime_md_def)

lemma date_keys_ok_set:
  "date_keys_ok dates \<longleftrightarrow>
   (\<forall>(k, n) \<in> set dates. \<exists>t. fromisoformat (''2020-'' @ k) = Inr t)"
  by (auto simp: date_keys_ok_def list_all_iff split: sum.splits)

lemma date_keys_ok_sort: "date_keys_ok (sort dates) = date_keys_ok dates"
  by (simp add: date_keys_ok_set)

lemma date_keys_ok_delete: "date_keys_ok dates \<Longrightarrow> date_keys_ok (AList.delete k dates)"
  by (auto simp: date_keys_ok_set delete_filter)

lemma set_update_sub: "set (AList.update k v al) \<subseteq> insert (k, v) (set al)"
  by (induction al) auto

lemma date_keys_ok_update:
  "date_keys_ok dates \<Longrightarrow> fromisoformat (''2020-'' @ k) = Inr t \<Longrightarrow>
   date_keys_ok (AList.update k n dates)"
  using set_update_sub [of k n dates] by (auto simp: date_keys_ok_set)

lemma imageList_lines_ok:
  "date_keys_ok xs \<Longrightarrow> \<exists>ls. imageList_lines xs = Inr ls"
  by (induction xs) (auto simp: date_keys_ok_def split: sum.splits)

lemma imageList_lines_mem:
  "imageList_lines xs = Inr ls \<Longrightarrow> (k, n) \<in> set xs \<Longrightarrow>
   fromisoformat (''2020-'' @ k) = Inr t \<Longrightarrow>
   strftime_Bd t @ '': '' @ n @ [CHR 0x0A] \<in> set ls"
  by (induction xs arbitrary: ls) (auto split: sum.splits)

lemma imageList_lines_from:
  "imageList_lines xs = Inr ls \<Longrightarrow> l \<in> set ls \<Longrightarrow>
   \<exists>k n t. (k, n) \<in> set xs \<and> fromisoformat (''2020-'' @ k) = Inr t
     \<and> l = strftime_Bd t @ '': '' @ n @ [CHR 0x0A]"
proof (induction xs arbitrary: ls)
  case Nil
  then show ?case by simp
next
  case (Cons p xs)
  obtain k n where p: "p = (k, n)" by (cases p)
  from Cons.prems(1) obtain t ls' where
    t: "fromisoformat (''2020-'' @ k) = Inr t" and ls': "imageList_lines xs = Inr ls'"
    and ls: "ls = (strftime_Bd t @ '': '' @ n @ [CHR 0x0A]) # ls'"
    by (auto simp: p split: sum.splits)
  show ?case
  proof (cases "l \<in> set ls'")
    case True
    from Cons.IH [OF ls' True] show ?thesis by auto
  next
    case False
    then have "l = strftime_Bd t @ '': '' @ n @ [CHR 0x0A]"
      using Cons.prems(2) ls by simp
    then show ?thesis using t p by auto
  qed
qed

lemma imageList_shown:
  assumes s: "getSingularImageType imageType = Inr sing"
    and ne: "get_images imageType (config w (gid (ctx_guild c))) \<noteq> []"
    and ls: "imageList_lines (sort (get_dates imageType (config w (gid (ctx_guild c))))) = Inr ls"
  shows "fst (imageList c imageType w) = Done"
    and "\<exists>rest. sent (snd (imageList c imageType w)) =
           sent w @ [Menu (''Server '' @ sing @ '' changes for '' @ gname (ctx_guild c))
                          (concat ls @ rest)]"
  using s ne ls by (simp_all add: imageList_def Let_def)


lemma is_digit_char: "is_digit a \<Longrightarrow> \<exists>i<10. a = digit_char i"
proof -
  assume "is_digit a"
  then have d: "a = digit_char 0 \<or> a = digit_char 1 \<or> a = digit_char 2 \<or> a = digit_char 3
      \<or> a = digit_char 4 \<or> a = digit_char 5 \<or> a = digit_char 6 \<or> a = digit_char 7
      \<or> a = digit_char 8 \<or> a = digit_char 9"
    by (auto simp: is_digit_def digit_char_def)
  have h: "\<And>i. a = digit_char i \<Longrightarrow> i < 10 \<Longrightarrow> \<exists>i<10. a = digit_char i"
    by blast
  from d show ?thesis
    by (elim disjE) (erule h, simp)+
qed

lemma pad2_digits_val:
  assumes "is_digit a" "is_digit b"
  shows "pad2 (digits_val [a, b]) = [a, b]"
    and "0 \<le> digits_val [a, b]" and "digits_val [a, b] < 100"
proof -
  obtain i j where i: "i < 10" "a = digit_char i" and j: "j < 10" "b = digit_char j"
    using is_digit_char [OF assms(1)] is_digit_char [OF assms(2)] by blast
  have v: "digits_val [a, b] = int (10 * i + j)"
    using digit_char_roundtrip [OF i(1)] digit_char_roundtrip [OF j(1)] i j
    by (simp add: digits_val_def)
  have nv: "nat (digits_val [a, b]) = 10 * i + j"
    unfolding v by (rule nat_int)
  have "(10 * i + j) div 10 = i" "(10 * i + j) mod 10 = j"
    using j(1) by simp_all
  then show "pad2 (digits_val [a, b]) = [a, b]"
    unfolding pad2_def nv by (simp add: i(2) j(2))
  show "0 \<le> digits_val [a, b]" "digits_val [a, b] < 100"
    unfolding v using i(1) j(1) by simp_all
qed

lemma fromisoformat_inverse:
  assumes "fromisoformat (''2020-'' @ k) = Inr t"
  shows "k = pad2 (month t) @ ''-'' @ pad2 (day t)" and "spec_valid_date (month t) (day t)"
proof -
  from assms have len: "length k = 5"
    by (simp add: fromisoformat_def split: if_splits)
  then obtain a b c e f where k: "k = [a, b, c, e, f]"
    by (cases k; simp; (rename_tac x xs, case_tac xs; simp)+)
  from assms have c: "c = CHR ''-''" and dg: "is_digit a" "is_digit b" "is_digit e" "is_digit f"
    and dt: "datetime_new (digits_val ''2020'') (digits_val [a, b]) (digits_val [e, f]) = Inr t"
    by (auto simp: fromisoformat_def k split: if_splits sum.splits)
  from dt have t: "month t = digits_val [a, b]" "day t = digits_val [e, f]"
    and rng: "1 \<le> digits_val [a, b]" "digits_val [a, b] \<le> 12" "1 \<le> digits_val [e, f]"
      "digits_val [e, f] \<le> days_in_month 2020 (digits_val [a, b])"
    by (auto simp: datetime_new_def digits_val_2020 split: if_splits)
  show "k = pad2 (month t) @ ''-'' @ pad2 (day t)"
    using pad2_digits_val(1) [OF dg(1,2)] pad2_digits_val(1) [OF dg(3,4)]
    by (simp add: t k c)
  show "spec_valid_date (month t) (day t)"
    using rng days_in_month_2020 [OF rng(1,2)] by (simp add: t spec_valid_date_def)
qed


lemma month_names_distinct: "distinct month_names" and month_names_length: "length month_names = 12"
  by (simp_all add: month_names_def)

lemma month_names_all_nospace: "\<forall>nm \<in> set month_names. CHR '' '' \<notin> set nm"
  by (simp add: month_names_def)

lemma month_names_nospace: "i < 12 \<Longrightarrow> CHR '' '' \<notin> set (month_names ! i)"
  using month_names_all_nospace nth_mem [of i month_names]
  by (simp only: month_names_length) blast

lemma takeWhile_name:
  "CHR '' '' \<notin> set nm \<Longrightarrow> takeWhile (\<lambda>c. c \<noteq> CHR '' '') (nm @ '' '' @ x) = nm"
  by (induction nm) auto

lemma spec_valid_date_bounds:
  "spec_valid_date m d \<Longrightarrow> 0 \<le> d \<and> d < 100 \<and> 0 \<le> m \<and> m < 100"
  using spec_month_length_le [of m] by (simp add: spec_valid_date_def)

lemma strftime_Bd_inj:
  assumes v: "spec_valid_date (month t) (day t)" and v': "spec_valid_date (month t') (day t')"
    and eq: "strftime_Bd t @ r = strftime_Bd t' @ r'"
  shows "month t = month t' \<and> day t = day t'"
proof -
  let ?i = "nat (month t - 1)" and ?j = "nat (month t' - 1)"
  have i: "?i < 12" and j: "?j < 12"
    using v v' by (auto simp: spec_valid_date_def)
  from eq have e: "month_names ! ?i @ '' '' @ (pad2 (day t) @ r)
      = month_names ! ?j @ '' '' @ (pad2 (day t') @ r')"
    by (simp add: strftime_Bd_def)
  have "takeWhile (\<lambda>c. c \<noteq> CHR '' '') (month_names ! ?i @ '' '' @ (pad2 (day t) @ r))
      = takeWhile (\<lambda>c. c \<noteq> CHR '' '') (month_names ! ?j @ '' '' @ (pad2 (day t') @ r'))"
    by (simp only: e)
  then have nm: "month_names ! ?i = month_names ! ?j"
    by (simp only: takeWhile_name [OF month_names_nospace [OF i]]
        takeWhile_name [OF month_names_nospace [OF j]])
  have ij: "?i = ?j"
    using nm i j nth_eq_iff_index_eq [OF month_names_distinct, of ?i ?j]
    by (simp only: month_names_length)
  then have m: "month t = month t'" using v v' by (auto simp: spec_valid_date_def)
  from e have "pad2 (day t) @ r = pad2 (day t') @ r'"
    by (simp only: ij) simp
  then have peq: "pad2 (day t) = pad2 (day t')" by (simp add: pad2_def)
  have "day t = digits_val (pad2 (day t))"
    using pad2_digits(2) [of "day t"] spec_valid_date_bounds [OF v] by simp
  also have "\<dots> = digits_val (pad2 (day t'))"
    by (simp only: peq)
  also have "\<dots> = day t'"
    using pad2_digits(2) [of "day t'"] spec_valid_date_bounds [OF v'] by simp
  finally show ?thesis using m by simp
qed

lemma imageList_lines_omit:
  assumes ls: "imageList_lines xs = Inr ls"
    and v: "spec_valid_date m d"
    and k: "pad2 m @ ''-'' @ pad2 d \<notin> fst ` set xs"
  shows "strftime_Bd \<lparr>year = 2020, month = m, day = d\<rparr> @ '': '' @ n @ [CHR 0x0A] \<notin> set ls"
proof
  assume "strftime_Bd \<lparr>year = 2020, month = m, day = d\<rparr> @ '': '' @ n @ [CHR 0x0A] \<in> set ls"
  from imageList_lines_from [OF ls this] obtain k' n' t where
    mem: "(k', n') \<in> set xs" and t: "fromisoformat (''2020-'' @ k') = Inr t"
    and eq: "strftime_Bd \<lparr>year = 2020, month = m, day = d\<rparr> @ '': '' @ n @ [CHR 0x0A]
           = strftime_Bd t @ '': '' @ n' @ [CHR 0x0A]"
    by blast
  have v0: "spec_valid_date (month \<lparr>year = 2020, month = m, day = d\<rparr>)
      (day \<lparr>year = 2020, month = m, day = d\<rparr>)"
    using v by simp
  have "m = month t \<and> d = day t"
    using strftime_Bd_inj [OF v0 fromisoformat_inverse(2) [OF t] eq] by simp
  then have "k' = pad2 m @ ''-'' @ pad2 d"
    using fromisoformat_inverse(1) [OF t] by simp
  with mem k show False by (force simp: image_iff)
qed

lemma update_mem: "(k, v) \<in> set (AList.update k v al)"
  by (induction al) auto

lemma has_key_nonempty: "has_key k d \<Longrightarrow> d \<noteq> []"
  by (auto simp: has_key_def)

lemma imageList_after:
  assumes s: "getSingularImageType imageType = Inr sing"
    and k: "has_key name (get_images imageType (config w (gid (ctx_guild c))))"
    and ok: "date_keys_ok (get_dates imageType (config w (gid (ctx_guild c))))"
  shows "\<exists>ls. imageList_lines (sort (get_dates imageType (config w (gid (ctx_guild c))))) = Inr ls
           \<and> fst (imageList c imageType w) = Done
           \<and> (\<exists>rest. sent (snd (imageList c imageType w)) =
                 sent w @ [Menu (''Server '' @ sing @ '' changes for '' @ gname (ctx_guild c))
                                (concat ls @ rest)])"
proof -
  obtain ls where ls:
    "imageList_lines (sort (get_dates imageType (config w (gid (ctx_guild c))))) = Inr ls"
    using imageList_lines_ok [of "sort (get_dates imageType (config w (gid (ctx_guild c))))"] ok
    by (auto simp: date_keys_ok_sort)
  show ?thesis
    using imageList_shown [OF s has_key_nonempty [OF k] ls] ls by blast
qed

text \<open>
  C5. Round trip, for a valid month and day and a registered name, in a guild whose
  schedule keys are all date keys: after \<^verbatim>\<open>imageDateSet\<close> the schedule table maps
  the key \<^verbatim>\<open>MM-DD\<close> to the name and \<^verbatim>\<open>imageList\<close> returns a menu whose lines
  contain the line of that date with the name; \<^verbatim>\<open>imageDateReset\<close> on the same date
  then removes the entry, and the next \<^verbatim>\<open>imageList\<close> has no line for that date,
  whatever the name. A further \<^verbatim>\<open>imageDateReset\<close>, now on a date with no entry,
  answers that there are no changes on this date and leaves the state as it is.
\<close>

theorem date_roundtrip:
  assumes s: "getSingularImageType imageType = Inr sing"
    and v: "spec_valid_date m d"
    and k: "has_key name (get_images imageType (config w (gid (ctx_guild c))))"
    and ok: "date_keys_ok (get_dates imageType (config w (gid (ctx_guild c))))"
  shows
    "let g = gid (ctx_guild c);
         key = pad2 m @ ''-'' @ pad2 d;
         human = strftime_Bd \<lparr>year = 2020, month = m, day = d\<rparr>;
         title = ''Server '' @ sing @ '' changes for '' @ gname (ctx_guild c);
         w1 = snd (imageDateSet c m d name imageType w);
         w2 = snd (imageDateReset c m d imageType w1)
     in map_of (get_dates imageType (config w1 g)) key = Some name
      \<and> (\<exists>ls. imageList_lines (sort (get_dates imageType (config w1 g))) = Inr ls
            \<and> human @ '': '' @ name @ [CHR 0x0A] \<in> set ls
            \<and> fst (imageList c imageType w1) = Done
            \<and> (\<exists>rest. sent (snd (imageList c imageType w1))
                         = sent w1 @ [Menu title (concat ls @ rest)]))
      \<and> fst (imageDateReset c m d imageType w1) = Done
      \<and> map_of (get_dates imageType (config w2 g)) key = None
      \<and> (\<exists>ls. imageList_lines (sort (get_dates imageType (config w2 g))) = Inr ls
            \<and> (\<forall>n. human @ '': '' @ n @ [CHR 0x0A] \<notin> set ls)
            \<and> fst (imageList c imageType w2) = Done
            \<and> (\<exists>rest. sent (snd (imageList c imageType w2))
                         = sent w2 @ [Menu title (concat ls @ rest)]))
      \<and> imageDateReset c m d imageType w2
          = (Done, send (''There are no '' @ sing @ '' changes on this date!'') w2)"
proof -
  define g where "g = gid (ctx_guild c)"
  define key where "key = pad2 m @ ''-'' @ pad2 d"
  define w1 where "w1 = snd (imageDateSet c m d name imageType w)"
  define w2 where "w2 = snd (imageDateReset c m d imageType w1)"
  define dates where "dates = get_dates imageType (config w g)"
  note t = getSingular_Inr [OF s]
  have c1: "config w1 = (config w)(g := set_dates imageType (AList.update key name dates) (config w g))"
    using imageDateSet_effect(2) [OF t v k] by (simp add: w1_def g_def key_def dates_def)
  have d1: "get_dates imageType (config w1 g) = AList.update key name dates"
    and i1: "get_images imageType (config w1 g) = get_images imageType (config w g)"
    by (simp_all add: c1)
  have k1: "has_key name (get_images imageType (config w1 (gid (ctx_guild c))))"
    using k i1 by (simp add: g_def)
  have ok1: "date_keys_ok (get_dates imageType (config w1 (gid (ctx_guild c))))"
    using date_keys_ok_update [OF _ fromisoformat_key [OF v], of dates name] ok d1
    by (simp add: g_def key_def dates_def)
  have a: "map_of (get_dates imageType (config w1 g)) key = Some name"
    by (simp add: d1 AList.update_conv')
  obtain ls1 rest1 where ls1: "imageList_lines (sort (get_dates imageType (config w1 g))) = Inr ls1"
    and l1: "fst (imageList c imageType w1) = Done"
      "sent (snd (imageList c imageType w1)) =
         sent w1 @ [Menu (''Server '' @ sing @ '' changes for '' @ gname (ctx_guild c))
                         (concat ls1 @ rest1)]"
    using imageList_after [OF s k1 ok1] by (auto simp: g_def)
  have "(key, name) \<in> set (sort (get_dates imageType (config w1 g)))"
    by (simp add: d1 update_mem)
  then have m1: "strftime_Bd \<lparr>year = 2020, month = m, day = d\<rparr> @ '': '' @ name @ [CHR 0x0A]
      \<in> set ls1"
    using imageList_lines_mem [OF ls1 _ fromisoformat_key [OF v]] by (simp add: key_def)
  have hk: "has_key (pad2 m @ ''-'' @ pad2 d) (get_dates imageType (config w1 (gid (ctx_guild c))))"
    using a by (simp add: has_key_map_of g_def key_def)
  note r = imageDateReset_present [OF s v hk]
  have b: "fst (imageDateReset c m d imageType w1) = Done"
    by (simp add: r)
  have c2: "config w2 = (config w1)(g := set_dates imageType
      (AList.delete key (AList.update key name dates)) (config w1 g))"
    using d1 by (simp add: w2_def r g_def key_def)
  have d2: "get_dates imageType (config w2 g) = AList.delete key (AList.update key name dates)"
    and i2: "get_images imageType (config w2 g) = get_images imageType (config w g)"
    by (simp_all add: c2 i1)
  have nk: "key \<notin> fst ` set (get_dates imageType (config w2 g))"
    by (simp add: d2 AList.delete_notin_dom)
  have cc: "map_of (get_dates imageType (config w2 g)) key = None"
    using nk by (simp add: map_of_eq_None_iff)
  have k2: "has_key name (get_images imageType (config w2 (gid (ctx_guild c))))"
    using k i2 by (simp add: g_def)
  have ok2: "date_keys_ok (get_dates imageType (config w2 (gid (ctx_guild c))))"
    using date_keys_ok_delete [of "AList.update key name dates" key] ok1 d1 d2
    by (simp add: g_def)
  obtain ls2 rest2 where ls2: "imageList_lines (sort (get_dates imageType (config w2 g))) = Inr ls2"
    and l2: "fst (imageList c imageType w2) = Done"
      "sent (snd (imageList c imageType w2)) =
         sent w2 @ [Menu (''Server '' @ sing @ '' changes for '' @ gname (ctx_guild c))
                         (concat ls2 @ rest2)]"
    using imageList_after [OF s k2 ok2] by (auto simp: g_def)
  have nk': "pad2 m @ ''-'' @ pad2 d \<notin> fst ` set (sort (get_dates imageType (config w2 g)))"
    using nk by (simp add: key_def)
  have m2: "\<forall>n. strftime_Bd \<lparr>year = 2020, month = m, day = d\<rparr> @ '': '' @ n @ [CHR 0x0A]
      \<notin> set ls2"
    using imageList_lines_omit [OF ls2 v nk'] by blast
  have nh: "\<not> has_key (pad2 m @ ''-'' @ pad2 d) (get_dates imageType (config w2 (gid (ctx_guild c))))"
    using cc by (simp add: has_key_map_of g_def key_def)
  note e = imageDateReset_absent [OF s v nh]
  have p1: "\<exists>ls. imageList_lines (sort (get_dates imageType (config w1 g))) = Inr ls
            \<and> strftime_Bd \<lparr>year = 2020, month = m, day = d\<rparr> @ '': '' @ name @ [CHR 0x0A] \<in> set ls
            \<and> fst (imageList c imageType w1) = Done
            \<and> (\<exists>rest. sent (snd (imageList c imageType w1))
                 = sent w1 @ [Menu (''Server '' @ sing @ '' changes for '' @ gname (ctx_guild c))
                                   (concat ls @ rest)])"
    using ls1 m1 l1 by blast
  have p2: "\<exists>ls. imageList_lines (sort (get_dates imageType (config w2 g))) = Inr ls
            \<and> (\<forall>n. strftime_Bd \<lparr>year = 2020, month = m, day = d\<rparr> @ '': '' @ n @ [CHR 0x0A]
                     \<notin> set ls)
            \<and> fst (imageList c imageType w2) = Done
            \<and> (\<exists>rest. sent (snd (imageList c imageType w2))
                 = sent w2 @ [Menu (''Server '' @ sing @ '' changes for '' @ gname (ctx_guild c))
                                   (concat ls @ rest)])"
    using ls2 m2 l2 by blast
  show ?thesis
    unfolding Let_def
    using a p1 b cc p2 e
    unfolding g_def key_def w1_def w2_def
    by (intro conjI) assumption+
qed


theorem date_roundtrip_witness:
  "getSingularImageType ''icons'' = Inr ''icon''
   \<and> spec_valid_date 2 9
   \<and> has_key ''spring'' (get_images ''icons'' (config ex_world (gid (ctx_guild (ex_ctx [])))))
   \<and> date_keys_ok (get_dates ''icons'' (config ex_world (gid (ctx_guild (ex_ctx [])))))
   \<and> map_of (get_dates ''icons''
         (config (snd (imageDateSet (ex_ctx []) 2 9 ''spring'' ''icons'' ex_world)) 7)) ''02-09''
       = Some ''spring''
   \<and> fst (imageDateReset (ex_ctx []) 2 9 ''icons''
         (snd (imageDateSet (ex_ctx []) 2 9 ''spring'' ''icons'' ex_world))) = Done
   \<and> map_of (get_dates ''icons''
         (config (snd (imageDateReset (ex_ctx []) 2 9 ''icons''
            (snd (imageDateSet (ex_ctx []) 2 9 ''spring'' ''icons'' ex_world)))) 7)) ''02-09''
       = None
   \<and> imageDateReset (ex_ctx []) 2 9 ''icons''
         (snd (imageDateReset (ex_ctx []) 2 9 ''icons''
            (snd (imageDateSet (ex_ctx []) 2 9 ''spring'' ''icons'' ex_world))))
       = (Done, send ''There are no icon changes on this date!''
            (snd (imageDateReset (ex_ctx []) 2 9 ''icons''
               (snd (imageDateSet (ex_ctx []) 2 9 ''spring'' ''icons'' ex_world)))))"
proof -
  have h1: "getSingularImageType ''icons'' = Inr ''icon''"
    by (simp add: getSingularImageType_def)
  have h2: "spec_valid_date 2 9"
    by (simp add: spec_valid_date_def spec_month_length_def)
  have h3: "has_key ''spring'' (get_images ''icons'' (config ex_world (gid (ctx_guild (ex_ctx [])))))"
    by (simp add: ex_gid ex_icons has_key_def)
  have h4: "date_keys_ok (get_dates ''icons'' (config ex_world (gid (ctx_guild (ex_ctx [])))))"
    by (simp add: ex_gid ex_iconsDates date_keys_ok_def fromisoformat_def is_digit_def
        digits_val_def digit_val_def datetime_new_def c_int_def days_in_month_def)
  show ?thesis
    using date_roundtrip [OF h1 h2 h3 h4] h1 h2 h3 h4
    by (simp add: Let_def ex_gid pad2_02 pad2_09)
qed

subsection \<open>The daily check\<close>

text \<open>
  The daily check of one guild and category. Without an entry for today the check only
  logs its debug record; when the platform refuses the edit the check logs the error and
  returns, so the loop goes on to the next guild.
\<close>

lemma checkGuildIcons_no_entry:
  "\<not> has_key (strftime_md now) (iconsDates (config w (gid g))) \<Longrightarrow>
   checkGuildIcons g now w = (Done, log DEBUG ''Checking guild icon for %s (%s)'' w)"
  by (simp add: checkGuildIcons_def Let_def)

lemma checkGuildBanners_no_entry:
  "\<not> has_key (strftime_md now) (bannersDates (config w (gid g))) \<Longrightarrow>
   checkGuildBanners g now w = (Done, log DEBUG ''Checking guild banner for %s (%s)'' w)"
  by (simp add: checkGuildBanners_def Let_def)

lemma checkGuildIcons_forbidden:
  assumes "map_of (iconsDates (config w (gid g))) (strftime_md now) = Some iconName"
    and "map_of (icons (config w (gid g))) iconName = Some icon"
    and "files w (dataFolder w @ ''/'' @ str_nat (gid g) @ ''/icons/'' @ icon) = Some bytes"
    and "edit_forbidden g"
  shows "checkGuildIcons g now w =
    (Done, log ERROR ''Could not change icon, ensure the bot has Manage Server permissions''
       (log DEBUG ''Checking guild icon for %s (%s)'' w))"
  using assms
  by (simp add: checkGuildIcons_def Let_def has_key_map_of getitem_def getFullFilepath_def)

lemma checkGuildBanners_forbidden:
  assumes "map_of (bannersDates (config w (gid g))) (strftime_md now) = Some bannerName"
    and "map_of (banners (config w (gid g))) bannerName = Some banner"
    and "files w (dataFolder w @ ''/'' @ str_nat (gid g) @ ''/banners/'' @ banner) = Some bytes"
    and "edit_forbidden g"
  shows "checkGuildBanners g now w =
    (Done, log ERROR ''Could not change banner, ensure the bot has Manage Server permissions''
       (log DEBUG ''Checking guild banner for %s (%s)'' w))"
  using assms
  by (simp add: checkGuildBanners_def Let_def has_key_map_of getitem_def getFullFilepath_def)

text \<open>A missing file is not caught: \<^verbatim>\<open>open\<close> raises and the exception leaves the check.\<close>

lemma checkGuildIcons_missing_file:
  assumes "map_of (iconsDates (config w (gid g))) (strftime_md now) = Some iconName"
    and "map_of (icons (config w (gid g))) iconName = Some icon"
    and "files w (dataFolder w @ ''/'' @ str_nat (gid g) @ ''/icons/'' @ icon) = None"
  shows "fst (checkGuildIcons g now w) = Raised FileNotFoundError"
  using assms
  by (simp add: checkGuildIcons_def Let_def has_key_map_of getitem_def getFullFilepath_def)

text \<open>
  C6. During a daily check a refused edit is logged and the loop goes on, and a date
  without an entry is skipped (the lemmas above). A missing stored file is to be a skip
  as well, but it ends the loop: guild 7 has the icon \<^verbatim>\<open>spring\<close> scheduled for
  March 20 and its file is not on disk; on that day the check of guild 7 raises
  FileNotFoundError, guild 8 is not checked, and the pass of March 21 never runs.
\<close>

theorem imageLoop_missing_file:
  "imageLoop [ex_guild, \<lparr>gid = 8, gname = ''Other'', edit_forbidden = False\<rparr>]
     [\<lparr>year = 2021, month = 3, day = 20\<rparr>, \<lparr>year = 2021, month = 3, day = 21\<rparr>] ex_world
   = (Raised FileNotFoundError,
      ex_world\<lparr>logged := [(INFO, check_msg), (DEBUG, ''Checking guild icon for %s (%s)'')],
                lastChecked := \<lparr>year = 2021, month = 3, day = 20\<rparr>\<rparr>)"
  by (simp add: imageLoop_body_def checkGuildIcons_def log_def strftime_md_def pad2_def
      digit_char_def has_key_def getitem_def getFullFilepath_def str_nat.simps
      ex_world_def ex_guild_def ex_conf_def Let_def)

subsection \<open>Once per day\<close>

lemma checks_started_fields [simp]:
  "checks_started (w\<lparr>edits := e\<rparr>) = checks_started w"
  "checks_started (w\<lparr>lastChecked := t\<rparr>) = checks_started w"
  "checks_started (log l m w) = checks_started w + (if l = INFO \<and> m = check_msg then 1 else 0)"
  by (simp_all add: checks_started_def log_def)

lemma checkGuildIcons_quiet:
  "checks_started (snd (checkGuildIcons g now w)) = checks_started w"
  "lastChecked (snd (checkGuildIcons g now w)) = lastChecked w"
  by (simp_all add: checkGuildIcons_def Let_def check_msg_def split: sum.splits option.splits)

lemma checkGuildBanners_quiet:
  "checks_started (snd (checkGuildBanners g now w)) = checks_started w"
  "lastChecked (snd (checkGuildBanners g now w)) = lastChecked w"
  by (simp_all add: checkGuildBanners_def Let_def check_msg_def split: sum.splits option.splits)

lemma imageLoop_guilds_quiet:
  "checks_started (snd (imageLoop_guilds gs now w)) = checks_started w
   \<and> lastChecked (snd (imageLoop_guilds gs now w)) = lastChecked w"
proof (induction gs arbitrary: w)
  case Nil
  then show ?case by simp
next
  case (Cons g gs)
  obtain o1 w1 where c1: "checkGuildIcons g now w = (o1, w1)" by (cases "checkGuildIcons g now w")
  obtain o2 w2 where c2: "checkGuildBanners g now w1 = (o2, w2)"
    by (cases "checkGuildBanners g now w1")
  have q1: "checks_started w1 = checks_started w" "lastChecked w1 = lastChecked w"
    using checkGuildIcons_quiet [of g now w] by (simp_all add: c1)
  have q2: "checks_started w2 = checks_started w" "lastChecked w2 = lastChecked w"
    using checkGuildBanners_quiet [of g now w1] q1 by (simp_all add: c2)
  show ?case
    using Cons.IH [of w2] q1 q2
    by (simp add: c1 c2 split: outcome.splits)
qed

lemma imageLoop_body_step:
  "checks_started (snd (imageLoop_body gs now w))
     = checks_started w + (if day (lastChecked w) \<noteq> day now then 1 else 0)"
  "lastChecked (snd (imageLoop_body gs now w))
     = (if day (lastChecked w) \<noteq> day now then now else lastChecked w)"
  using imageLoop_guilds_quiet [of gs now "(log INFO check_msg w)\<lparr>lastChecked := now\<rparr>"]
  by (simp_all add: imageLoop_body_def)

lemma imageLoop_same_day:
  "\<forall>x \<in> set ts. same_date x t \<Longrightarrow> day (lastChecked w) = day t \<Longrightarrow>
   checks_started (snd (imageLoop gs ts w)) = checks_started w
   \<and> day (lastChecked (snd (imageLoop gs ts w))) = day t"
proof (induction ts arbitrary: w)
  case Nil
  then show ?case by simp
next
  case (Cons now ts)
  obtain o1 w1 where b: "imageLoop_body gs now w = (o1, w1)" by (cases "imageLoop_body gs now w")
  have dn: "day now = day t" using Cons.prems(1) by (simp add: same_date_def)
  have q: "checks_started w1 = checks_started w" "day (lastChecked w1) = day t"
    using imageLoop_body_step [of gs now w] Cons.prems(2) dn by (simp_all add: b)
  show ?case
    using Cons.IH [of w1] Cons.prems(1) q
    by (simp add: b split: outcome.splits)
qed

text \<open>
  C9. A pass of the loop starts a check exactly when the day of the month of the clock
  differs from the day recorded at the last check. Over any run of passes whose clock
  readings lie on one calendar day, the loop starts one check when the recorded day differs
  from that day's and none otherwise, so never two on the same calendar day; and while the
  task is running the recorded day is then that day's.
\<close>

theorem imageLoop_once_per_day:
  assumes "ts \<noteq> []" and "\<forall>x \<in> set ts. same_date x t"
  shows "checks_started (snd (imageLoop_body gs now w))
           = checks_started w + (if day (lastChecked w) \<noteq> day now then 1 else 0)
       \<and> checks_started (snd (imageLoop gs ts w))
           = checks_started w + (if day (lastChecked w) \<noteq> day t then 1 else 0)
       \<and> (fst (imageLoop gs ts w) = Done \<longrightarrow> day (lastChecked (snd (imageLoop gs ts w))) = day t)"
proof -
  obtain x xs where ts: "ts = x # xs" using assms(1) by (cases ts) auto
  obtain o1 w1 where b: "imageLoop_body gs x w = (o1, w1)" by (cases "imageLoop_body gs x w")
  have dx: "day x = day t" and rest: "\<forall>y \<in> set xs. same_date y t"
    using assms(2) by (simp_all add: ts same_date_def)
  have q: "checks_started w1 = checks_started w + (if day (lastChecked w) \<noteq> day t then 1 else 0)"
    "day (lastChecked w1) = day t"
    using imageLoop_body_step [of gs x w] dx by (simp_all add: b)
  have r: "checks_started (snd (imageLoop gs xs w1)) = checks_started w1"
    "day (lastChecked (snd (imageLoop gs xs w1))) = day t"
    using imageLoop_same_day [OF rest q(2)] by simp_all
  have "checks_started (snd (imageLoop gs ts w))
      = checks_started w + (if day (lastChecked w) \<noteq> day t then 1 else 0)"
    using q r by (cases o1) (simp_all add: ts b)
  moreover have "fst (imageLoop gs ts w) = Done \<longrightarrow>
      day (lastChecked (snd (imageLoop gs ts w))) = day t"
    using q r by (cases o1) (simp_all add: ts b)
  ultimately show ?thesis
    using imageLoop_body_step(1) [of gs now w] by simp
qed


theorem imageLoop_once_per_day_witness:
  "[\<lparr>year = 2020, month = 12, day = 25\<rparr>, \<lparr>year = 2020, month = 12, day = 25\<rparr>] \<noteq> []
   \<and> same_date \<lparr>year = 2020, month = 12, day = 25\<rparr> \<lparr>year = 2020, month = 12, day = 25\<rparr>
   \<and> day (lastChecked ex_world) \<noteq> day \<lparr>year = 2020, month = 12, day = 25\<rparr>
   \<and> checks_started (snd (imageLoop [ex_guild]
         [\<lparr>year = 2020, month = 12, day = 25\<rparr>, \<lparr>year = 2020, month = 12, day = 25\<rparr>] ex_world))
       = checks_started ex_world + 1"
proof -
  have h1: "[\<lparr>year = 2020, month = 12, day = 25\<rparr>, \<lparr>year = 2020, month = 12, day = 25\<rparr>] \<noteq> []"
    by simp
  have h2: "\<forall>x \<in> set [\<lparr>year = 2020, month = 12, day = 25\<rparr>, \<lparr>year = 2020, month = 12, day = 25\<rparr>].
      same_date x \<lparr>year = 2020, month = 12, day = 25\<rparr>"
    by (simp add: same_date_def)
  have h3: "day (lastChecked ex_world) \<noteq> day \<lparr>year = 2020, month = 12, day = 25\<rparr>"
    by (simp add: ex_world_def)
  show ?thesis
    using imageLoop_once_per_day [OF h1 h2, of "[ex_guild]" "\<lparr>year = 2020, month = 12, day = 25\<rparr>"
        ex_world] h3
    by (simp add: same_date_def)
qed

subsection \<open>The schedule names registered images\<close>

lemma refs_ok_set:
  "refs_ok t c \<longleftrightarrow> (\<forall>(d, n) \<in> set (get_dates t c). has_key n (get_images t c))"
  by (simp add: refs_ok_def list_all_iff)

lemma has_key_update: "has_key n d \<Longrightarrow> has_key n (AList.update k v d)"
  by (simp add: has_key_def AList.dom_update)

lemma has_key_delete: "has_key n d \<Longrightarrow> n \<noteq> k \<Longrightarrow> has_key n (AList.delete k d)"
  by (auto simp: has_key_def delete_filter image_iff)

lemma wf_dict_simps:
  "wf_dict d \<Longrightarrow> wf_dict (AList.update k v d)"
  "wf_dict d \<Longrightarrow> wf_dict (AList.delete k d)"
  "wf_dict d \<Longrightarrow> wf_dict (filter P d)"
  by (simp_all add: wf_dict_def AList.distinct_update AList.distinct_delete distinct_map_filter)

lemma refs_add:
  "\<forall>(d, n) \<in> set dates. has_key n images \<Longrightarrow>
   \<forall>(d, n) \<in> set dates. has_key n (AList.update name fn images)"
  by (fastforce intro: has_key_update)

lemma refs_remove:
  "\<forall>(d, n) \<in> set dates. has_key n images \<Longrightarrow>
   \<forall>(d, n) \<in> set (filter (\<lambda>(d, n). n \<noteq> name) dates). has_key n (AList.delete name images)"
  by (fastforce intro: has_key_delete)

lemma refs_dateSet:
  "\<forall>(d, n) \<in> set dates. has_key n images \<Longrightarrow> has_key name images \<Longrightarrow>
   \<forall>(d, n) \<in> set (AList.update key name dates). has_key n images"
  using set_update_sub [of key name dates] by fastforce

lemma refs_dateReset:
  "\<forall>(d, n) \<in> set dates. has_key n images \<Longrightarrow>
   \<forall>(d, n) \<in> set (AList.delete key dates). has_key n images"
  by (fastforce simp: delete_filter)

text \<open>The four ways in which a command changes the configuration of a guild.\<close>

lemma inv1_add:
  assumes "inv1 t' c"
  shows "inv1 t' (set_images t (AList.update name fn (get_images t c)) c)"
  using assms refs_add [of "iconsDates c" "icons c" name fn]
    refs_add [of "bannersDates c" "banners c" name fn]
  by (cases "t' = ''icons''"; cases "t = ''icons''";
      simp add: inv1_def refs_ok_set get_images_def get_dates_def set_images_def)

lemma inv1_remove:
  assumes "inv1 t' c"
  shows "inv1 t' (set_dates t (filter (\<lambda>(d, n). n \<noteq> name) (get_dates t c))
                   (set_images t (AList.delete name (get_images t c)) c))"
  using assms refs_remove [of "iconsDates c" "icons c" name]
    refs_remove [of "bannersDates c" "banners c" name]
  by (cases "t' = ''icons''"; cases "t = ''icons''";
      simp add: inv1_def refs_ok_set get_images_def get_dates_def set_images_def set_dates_def
        wf_dict_simps)

lemma inv1_dateSet:
  assumes "inv1 t' c" and "has_key name (get_images t c)"
  shows "inv1 t' (set_dates t (AList.update key name (get_dates t c)) c)"
  using assms refs_dateSet [of "iconsDates c" "icons c" name key]
    refs_dateSet [of "bannersDates c" "banners c" name key]
  by (cases "t' = ''icons''"; cases "t = ''icons''";
      simp add: inv1_def refs_ok_set get_images_def get_dates_def set_dates_def wf_dict_simps)

lemma inv1_dateReset:
  assumes "inv1 t' c"
  shows "inv1 t' (set_dates t (AList.delete key (get_dates t c)) c)"
  using assms refs_dateReset [of "iconsDates c" "icons c" key]
    refs_dateReset [of "bannersDates c" "banners c" key]
  by (cases "t' = ''icons''"; cases "t = ''icons''";
      simp add: inv1_def refs_ok_set get_images_def get_dates_def set_dates_def wf_dict_simps)


text \<open>What each command does to the configuration.\<close>

lemma imageAdd_save_config:
  "config (snd (imageAdd_save c name t sing w)) = config w
   \<or> (\<exists>fn. config (snd (imageAdd_save c name t sing w)) =
         (config w)(gid (ctx_guild c) := set_images t
            (AList.update name fn (get_images t (config w (gid (ctx_guild c)))))
            (config w (gid (ctx_guild c)))))"
  by (auto simp: imageAdd_save_def Let_def split: sum.splits)

lemma imageAdd_config:
  "config (snd (imageAdd c name t reply w)) = config w
   \<or> (\<exists>fn. config (snd (imageAdd c name t reply w)) =
         (config w)(gid (ctx_guild c) := set_images t
            (AList.update name fn (get_images t (config w (gid (ctx_guild c)))))
            (config w (gid (ctx_guild c)))))"
proof -
  have a: "\<And>sing m. config (snd (imageAdd_save c name t sing (send m w))) = config w
      \<or> (\<exists>fn. config (snd (imageAdd_save c name t sing (send m w))) =
         (config w)(gid (ctx_guild c) := set_images t
            (AList.update name fn (get_images t (config w (gid (ctx_guild c)))))
            (config w (gid (ctx_guild c)))))"
    using imageAdd_save_config [of c name t _ "send _ w"] by simp
  show ?thesis
    using a imageAdd_save_config [of c name t _ w]
    by (simp add: imageAdd_def Let_def split: sum.splits error.splits option.splits)
qed

lemma imageRemove_unchanged:
  "\<not> (t = ''icons'' \<or> t = ''banners'') \<or> \<not> has_key name (get_images t (config w (gid (ctx_guild c))))
   \<Longrightarrow> config (snd (imageRemove c name t reply w)) = config w"
  by (auto simp: imageRemove_def getSingularImageType_def Let_def)

lemma imageRemove_config:
  assumes "wf_dict (get_dates t (config w (gid (ctx_guild c))))"
  shows "config (snd (imageRemove c name t reply w)) = config w
   \<or> config (snd (imageRemove c name t reply w)) =
        (config w)(gid (ctx_guild c) :=
           set_dates t (filter (\<lambda>(d, n). n \<noteq> name) (get_dates t (config w (gid (ctx_guild c)))))
             (set_images t (AList.delete name (get_images t (config w (gid (ctx_guild c)))))
                (config w (gid (ctx_guild c)))))"
proof (cases "\<forall>r. reply = Some r \<longrightarrow> str_lower r \<noteq> ''yes''")
  case True
  then show ?thesis using imageRemove_not_confirmed [OF True] by simp
next
  case False
  then obtain r where r: "reply = Some r" "str_lower r = ''yes''" by auto
  show ?thesis
  proof (cases "(t = ''icons'' \<or> t = ''banners'')
      \<and> has_key name (get_images t (config w (gid (ctx_guild c))))")
    case True
    then show ?thesis
      using imageRemove_confirmed(2) [OF _ _ r(2) assms, of name] r(1) by simp
  next
    case False
    then show ?thesis using imageRemove_unchanged [of t name w c reply] by blast
  qed
qed

lemma imageDateSet_config:
  "config (snd (imageDateSet c m d name t w)) = config w
   \<or> (has_key name (get_images t (config w (gid (ctx_guild c))))
      \<and> (\<exists>key. config (snd (imageDateSet c m d name t w)) =
            (config w)(gid (ctx_guild c) := set_dates t
               (AList.update key name (get_dates t (config w (gid (ctx_guild c)))))
               (config w (gid (ctx_guild c))))))"
  by (auto simp: imageDateSet_def Let_def split: sum.splits bool.splits)

lemma imageDateReset_config:
  "config (snd (imageDateReset c m d t w)) = config w
   \<or> (\<exists>key. config (snd (imageDateReset c m d t w)) =
         (config w)(gid (ctx_guild c) := set_dates t
            (AList.delete key (get_dates t (config w (gid (ctx_guild c)))))
            (config w (gid (ctx_guild c)))))"
  by (auto simp: imageDateReset_def Let_def delitem_def split: sum.splits bool.splits)

lemma imageList_config: "config (snd (imageList c t w)) = config w"
  by (simp add: imageList_def Let_def split: sum.splits)

lemma checkGuild_config:
  "config (snd (checkGuildIcons g now w)) = config w"
  "config (snd (checkGuildBanners g now w)) = config w"
  by (simp_all add: checkGuildIcons_def checkGuildBanners_def Let_def
      split: sum.splits option.splits)

lemma imageLoop_guilds_config: "config (snd (imageLoop_guilds gs now w)) = config w"
proof (induction gs arbitrary: w)
  case Nil
  then show ?case by simp
next
  case (Cons g gs)
  obtain o1 w1 where c1: "checkGuildIcons g now w = (o1, w1)" by (cases "checkGuildIcons g now w")
  obtain o2 w2 where c2: "checkGuildBanners g now w1 = (o2, w2)"
    by (cases "checkGuildBanners g now w1")
  have "config w1 = config w" using checkGuild_config(1) [of g now w] by (simp add: c1)
  moreover have "config w2 = config w1" using checkGuild_config(2) [of g now w1] by (simp add: c2)
  ultimately show ?case
    using Cons.IH [of w2] by (simp add: c1 c2 split: outcome.splits)
qed

lemma imageLoop_body_config: "config (snd (imageLoop_body gs now w)) = config w"
  using imageLoop_guilds_config [of gs now "(log INFO check_msg w)\<lparr>lastChecked := now\<rparr>"]
  by (simp add: imageLoop_body_def)


lemma inv1_BASE_GUILD: "inv1 t BASE_GUILD"
  by (simp add: inv1_def wf_dict_def refs_ok_def BASE_GUILD_def get_dates_def)

lemma reachable_inv1: "reachable w \<Longrightarrow> inv1 t (config w g)"
proof (induction arbitrary: g t rule: reachable.induct)
  case (start w)
  then show ?case by (simp add: inv1_BASE_GUILD)
next
  case (add w c name imageType reply)
  show ?case
    using imageAdd_config [of c name imageType reply w] add.IH inv1_add
    by (auto simp: fun_upd_def)
next
  case (remove w c name imageType reply)
  have "wf_dict (get_dates imageType (config w (gid (ctx_guild c))))"
    using remove.IH [of imageType "gid (ctx_guild c)"] by (simp add: inv1_def)
  from imageRemove_config [OF this, of name reply] show ?case
    using remove.IH inv1_remove by (auto simp: fun_upd_def)
next
  case (dateSet w c m d name imageType)
  show ?case
    using imageDateSet_config [of c m d name imageType w] dateSet.IH inv1_dateSet
    by (auto simp: fun_upd_def)
next
  case (dateReset w c m d imageType)
  show ?case
    using imageDateReset_config [of c m d imageType w] dateReset.IH inv1_dateReset
    by (auto simp: fun_upd_def)
next
  case (list w c imageType)
  then show ?case by (simp add: imageList_config)
next
  case (loop w guilds now)
  then show ?case by (simp add: imageLoop_body_config)
qed

text \<open>
  C8. In every state the cog can reach from its start by \<^verbatim>\<open>imageAdd\<close>,
  \<^verbatim>\<open>imageRemove\<close>, \<^verbatim>\<open>imageDateSet\<close> and \<^verbatim>\<open>imageDateReset\<close> (and by
  \<^verbatim>\<open>imageList\<close> and passes of the daily loop), with any arguments and replies, every
  entry of a schedule table names an image that is in the registry of the same guild and
  category.
\<close>

theorem schedule_refs_invariant:
  assumes "reachable w"
  shows "refs_ok ''icons'' (config w g) \<and> refs_ok ''banners'' (config w g)
       \<and> (\<forall>date imageName. map_of (iconsDates (config w g)) date = Some imageName
             \<longrightarrow> has_key imageName (icons (config w g)))
       \<and> (\<forall>date imageName. map_of (bannersDates (config w g)) date = Some imageName
             \<longrightarrow> has_key imageName (banners (config w g)))"
proof -
  have i: "inv1 ''icons'' (config w g)" and b: "inv1 ''banners'' (config w g)"
    using reachable_inv1 [OF assms] by blast+
  have "\<forall>(d, n) \<in> set (iconsDates (config w g)). has_key n (icons (config w g))"
    using i by (simp add: inv1_def refs_ok_set get_dates_def get_images_def)
  moreover have "\<forall>(d, n) \<in> set (bannersDates (config w g)). has_key n (banners (config w g))"
    using b by (simp add: inv1_def refs_ok_set get_dates_def get_images_def)
  ultimately show ?thesis
    using i b by (auto simp: inv1_def dest!: map_of_SomeD)
qed


lemma ex_start_add:
  "config (snd (imageAdd (ex_ctx [ex_gif]) ''snow'' ''icons'' None ex_start))
     = (\<lambda>_. BASE_GUILD)(7 := BASE_GUILD\<lparr>icons := [(''snow'', ''snow.gif'')]\<rparr>)"
  using ex_gif_valid ex_gif_ext
  by (simp add: imageAdd_def imageAdd_save_def getSingularImageType_def getFullFilepath_def
      Let_def ex_atts ex_gid has_key_def get_images_def set_images_def ex_start_def BASE_GUILD_def)

theorem schedule_refs_invariant_witness:
  "reachable (snd (imageDateSet (ex_ctx []) 12 25 ''snow'' ''icons''
       (snd (imageAdd (ex_ctx [ex_gif]) ''snow'' ''icons'' None ex_start))))
   \<and> map_of (iconsDates (config (snd (imageDateSet (ex_ctx []) 12 25 ''snow'' ''icons''
         (snd (imageAdd (ex_ctx [ex_gif]) ''snow'' ''icons'' None ex_start)))) 7)) ''12-25''
       = Some ''snow''
   \<and> has_key ''snow'' (icons (config (snd (imageDateSet (ex_ctx []) 12 25 ''snow'' ''icons''
         (snd (imageAdd (ex_ctx [ex_gif]) ''snow'' ''icons'' None ex_start)))) 7))"
proof -
  let ?w1 = "snd (imageAdd (ex_ctx [ex_gif]) ''snow'' ''icons'' None ex_start)"
  let ?w2 = "snd (imageDateSet (ex_ctx []) 12 25 ''snow'' ''icons'' ?w1)"
  have "config ex_start = (\<lambda>_. BASE_GUILD)" by (simp add: ex_start_def)
  then have r: "reachable ?w2"
    by (intro reachable.dateSet reachable.add reachable.start)
  have t: "''icons'' = ''icons'' \<or> ''icons'' = ''banners''" by simp
  have v: "spec_valid_date 12 25"
    by (simp add: spec_valid_date_def spec_month_length_def)
  have k: "has_key ''snow'' (get_images ''icons'' (config ?w1 (gid (ctx_guild (ex_ctx [])))))"
    by (simp add: ex_start_add ex_gid get_images_def has_key_def)
  have d: "map_of (iconsDates (config ?w2 7)) ''12-25'' = Some ''snow''"
    using imageDateSet_effect(2) [OF t v k]
    by (simp add: ex_start_add ex_gid get_dates_def set_dates_def BASE_GUILD_def pad2_12 pad2_25)
  show ?thesis
    using schedule_refs_invariant [OF r, of 7] r d by blast
qed

end
